theory Spec2Isabelle
  imports Main "HOL-Library.Sublist" "HOL-Library.Word"
begin

section \<open>Python strings\<close>

text \<open>
  A Python \<open>str\<close> is a sequence of Unicode code points, so it is modelled as a list of
  natural numbers. \<open>str_lit\<close> turns an ASCII literal of the source into that form.
\<close>

type_synonym pystr = "nat list"

definition str_lit :: "string \<Rightarrow> pystr" where
  "str_lit s = map of_char s"

text \<open>
  The characters matched by \<open>\s\<close> in a \<open>str\<close> pattern of \<open>re\<close>: exactly those for which
  \<open>str.isspace\<close> holds.
\<close>

definition isspace :: "nat \<Rightarrow> bool" where
  "isspace c \<longleftrightarrow>
     (9 \<le> c \<and> c \<le> 13) \<or> (28 \<le> c \<and> c \<le> 32) \<or> c = 133 \<or> c = 160 \<or> c = 5760 \<or>
     (8192 \<le> c \<and> c \<le> 8202) \<or> c = 8232 \<or> c = 8233 \<or> c = 8239 \<or> c = 8287 \<or> c = 12288"

text \<open>
  The surrogate code points \<open>U+D800\<close> to \<open>U+DFFF\<close>. A \<open>str\<close> may hold them on their own
  (\<open>json.loads\<close> builds one from the escape \<open>\ud800\<close>), and UTF-8 has no encoding for them.
\<close>

definition is_surrogate :: "nat \<Rightarrow> bool" where
  "is_surrogate c \<longleftrightarrow> 55296 \<le> c \<and> c \<le> 57343"

section \<open>Configuration\<close>

definition BOT_MENTION :: pystr where
  "BOT_MENTION = str_lit ''@music_recommender_iss_bot''"

definition WATCH_CHAT_IDS :: "int set" where
  "WATCH_CHAT_IDS = {- 4714765877}"

section \<open>The per-user history: \<open>deque(maxlen=10)\<close>\<close>

definition maxlen :: nat where
  "maxlen = 10"

text \<open>
  \<open>deque.append\<close> on a bounded deque: the element is added on the right and, when the
  deque is then longer than \<open>maxlen\<close>, one element is dropped on the left.
\<close>

definition deque_append :: "'a list \<Rightarrow> 'a \<Rightarrow> 'a list" where
  "deque_append d x = (let d' = d @ [x] in if length d' > maxlen then tl d' else d')"

text \<open>A sequence of admissions to one window, in order.\<close>

fun admit_all :: "'a list \<Rightarrow> 'a list \<Rightarrow> 'a list" where
  "admit_all d [] = d"
| "admit_all d (x # xs) = admit_all (deque_append d x) xs"

section \<open>Python values and exceptions\<close>

text \<open>
  A Python \<open>float\<close> is an IEEE 754 double, kept as its 64 bits. Its arithmetic is not
  defined here: the operations on floats that the program uses are taken from the world
  (see below).
\<close>

type_synonym pyfloat = "64 word"

text \<open>
  The values \<open>json.loads\<close> builds: \<open>None\<close>, booleans, integers, floats, strings, lists and
  dicts (the items in insertion order; lookups go through \<open>map_of\<close>).
\<close>

datatype pyval =
    PNone
  | PBool bool
  | PInt int
  | PFloat pyfloat
  | PStr pystr
  | PList "pyval list"
  | PDict "(pystr \<times> pyval) list"

text \<open>
  The exceptions that can be raised in the two loops. All of them are subclasses of
  \<open>Exception\<close>: \<open>ClientError\<close> stands for any failure of the translation or scoring
  service inside \<open>call_predict\<close>, \<open>KafkaError\<close> for a failed \<open>send_and_wait\<close>.
\<close>

datatype exn =
    AttributeError
  | TypeError
  | ValueError
  | OverflowError
  | RecursionError
  | UnicodeDecodeError
  | UnicodeEncodeError
  | JSONDecodeError
  | ClientError
  | KafkaError

fun digits :: "nat \<Rightarrow> pystr" where
  "digits n = (if n < 10 then [48 + n] else digits (n div 10) @ [48 + n mod 10])"

declare digits.simps [simp del]

definition int_str :: "int \<Rightarrow> pystr" where
  "int_str i = (if i < 0 then 45 # digits (nat (- i)) else digits (nat i))"

text \<open>
  The text of \<open>str(v)\<close>, which is also what an f-string puts in for \<open>{v}\<close>. For a float, a
  list or a dict it is the \<open>repr\<close> of the value, which depends on the float formatting
  and on the Unicode database; \<open>repr\<close> is taken as a parameter.
\<close>

definition str_text :: "(pyval \<Rightarrow> pystr) \<Rightarrow> pyval \<Rightarrow> pystr" where
  "str_text py_repr v =
     (case v of
        PNone \<Rightarrow> str_lit ''None''
      | PBool b \<Rightarrow> (if b then str_lit ''True'' else str_lit ''False'')
      | PInt i \<Rightarrow> int_str i
      | PStr s \<Rightarrow> s
      | _ \<Rightarrow> py_repr v)"

definition py_str :: "(pyval \<Rightarrow> pystr) \<Rightarrow> pyval \<Rightarrow> pyval" where
  "py_str py_repr v = PStr (str_text py_repr v)"

definition is_None :: "pyval \<Rightarrow> bool" where
  "is_None v \<longleftrightarrow> v = PNone"

text \<open>\<open>isinstance(v, str)\<close>\<close>

definition isinstance_str :: "pyval \<Rightarrow> bool" where
  "isinstance_str v = (case v of PStr _ \<Rightarrow> True | _ \<Rightarrow> False)"

text \<open>\<open>d.get(k, default)\<close> and \<open>d[k] = v\<close> on the items of a dict.\<close>

definition dict_get :: "('k \<times> 'v) list \<Rightarrow> 'k \<Rightarrow> 'v \<Rightarrow> 'v" where
  "dict_get d k dflt = (case map_of d k of None \<Rightarrow> dflt | Some v \<Rightarrow> v)"

fun dict_set :: "('k \<times> 'v) list \<Rightarrow> 'k \<Rightarrow> 'v \<Rightarrow> ('k \<times> 'v) list" where
  "dict_set [] k v = [(k, v)]"
| "dict_set ((k', v') # d) k v = (if k' = k then (k, v) # d else (k', v') # dict_set d k v)"

section \<open>Messages and the outside world\<close>

text \<open>
  The payload of a consumed message, by what \<open>json.loads(msg.value.decode("utf-8"))\<close>
  does with it: a message without a value (\<open>None\<close> has no \<open>decode\<close>), bytes that are not
  UTF-8, text that is not JSON, JSON text on which \<open>json.loads\<close> raises another exception
  (\<open>RecursionError\<close> when it is nested too deeply, \<open>ValueError\<close> when an integer has more
  digits than the interpreter converts), and JSON text with the value it parses to. The
  integers of a parsed value are therefore within that limit of digits.
\<close>

datatype payload =
    No_value
  | Not_utf8
  | Not_json
  | Loads_raised exn
  | Json pyval

fun loads_decode :: "payload \<Rightarrow> exn + pyval" where
  "loads_decode No_value = Inl AttributeError"
| "loads_decode Not_utf8 = Inl UnicodeDecodeError"
| "loads_decode Not_json = Inl JSONDecodeError"
| "loads_decode (Loads_raised e) = Inl e"
| "loads_decode (Json v) = Inr v"

text \<open>
  A consumed message. Its timestamp is the signed 64-bit number of milliseconds that the
  broker stores with the record; a record of the oldest message format has none, and
  \<open>msg.timestamp\<close> is \<open>None\<close>.
\<close>

record kafka_msg =
  val :: payload
  timestamp :: "64 word option"

text \<open>
  What the process reads from outside while it handles one message:
  \<^item> the clock and the local zone's offset from UTC, both in milliseconds;
  \<^item> which surrogate code points standard output writes (none with the error handler
    \<open>strict\<close>, \<open>U+DC80\<close> to \<open>U+DCFF\<close> with \<open>surrogateescape\<close>, all with \<open>backslashreplace\<close>);
    standard output is UTF-8, so it writes every other character;
  \<^item> the answers of the translation client and of the scoring service to the \<open>i\<close>-th
    coroutine of a \<open>gather\<close>, the scoring answer being whatever \<open>resp.json()\<close> parses;
  \<^item> the outcome of \<open>send_and_wait\<close>;
  \<^item> \<open>repr\<close> on floats and containers, the sum of two floats, the conversion of an integer
    to a float (none when the integer is too large), and whether a float equals an
    integer;
  \<^item> the largest number of digits with which the interpreter writes an integer (4300
    from Python 3.11 on, none before).
\<close>

record world =
  now_ms :: int
  utcoffset_ms :: "int \<Rightarrow> int"
  stdout_writes :: "nat \<Rightarrow> bool"
  detect_language :: "nat \<Rightarrow> pystr \<Rightarrow> exn + pystr option"
  translate :: "nat \<Rightarrow> pystr \<Rightarrow> exn + pystr option"
  post_predict :: "nat \<Rightarrow> pystr \<Rightarrow> exn + pyval"
  send_and_wait :: "exn option"
  py_repr :: "pyval \<Rightarrow> pystr"
  float_add :: "pyfloat \<Rightarrow> pyfloat \<Rightarrow> pyfloat"
  int_to_float :: "int \<Rightarrow> pyfloat option"
  float_eq_int :: "pyfloat \<Rightarrow> int \<Rightarrow> bool"
  max_str_digits :: "nat option"

text \<open>
  \<open>chat_id in WATCH_CHAT_IDS\<close>: the value is hashed and compared. A list or a dict is
  unhashable (\<open>TypeError\<close>); \<open>True\<close> and \<open>False\<close> compare equal to 1 and 0, a float to the
  integer of the same value.
\<close>

definition in_watch :: "world \<Rightarrow> pyval \<Rightarrow> exn + bool" where
  "in_watch w v =
     (case v of
        PInt i \<Rightarrow> Inr (i \<in> WATCH_CHAT_IDS)
      | PBool b \<Rightarrow> Inr ((if b then 1 else 0) \<in> WATCH_CHAT_IDS)
      | PFloat f \<Rightarrow> Inr (\<exists>i\<in>WATCH_CHAT_IDS. float_eq_int w f i)
      | PNone \<Rightarrow> Inr False
      | PStr _ \<Rightarrow> Inr False
      | PList _ \<Rightarrow> Inl TypeError
      | PDict _ \<Rightarrow> Inl TypeError)"

text \<open>
  \<open>print(line)\<close> encodes the line for standard output and raises \<open>UnicodeEncodeError\<close>
  when it holds a surrogate that standard output does not write. Only the texts that
  an f-string inserts as they are matter here: \<open>repr\<close> escapes surrogates, and the fixed
  parts of the lines have none.
\<close>

definition can_print :: "world \<Rightarrow> pystr \<Rightarrow> bool" where
  "can_print w s = list_all (\<lambda>c. is_surrogate c \<longrightarrow> stdout_writes w c) s"

text \<open>
  \<open>datetime\<close> covers the years 1 to 9999: the first and the last millisecond it can hold,
  counted from the epoch.
\<close>

definition datetime_min_ms :: int where
  "datetime_min_ms = - 62135596800000"

definition datetime_max_ms :: int where
  "datetime_max_ms = 253402300799999"

text \<open>
  \<open>is_same_local_day(ts_ms)\<close>, called with the timestamp of a message. \<open>None / 1000\<close> is a
  \<open>TypeError\<close>. \<open>datetime.fromtimestamp(ts_ms / 1000, tz=timezone.utc)\<close> raises \<open>ValueError\<close> when the
  instant is outside the years 1 to 9999, and \<open>astimezone()\<close> raises \<open>OverflowError\<close> when
  the local time is. Otherwise the two dates are compared; two instants have the same
  \<open>(year, month, day)\<close> exactly when their local times fall on the same day, counted from
  the epoch. The clock of the world is taken to read a time that \<open>datetime\<close> can hold.
\<close>

definition is_same_local_day :: "world \<Rightarrow> 64 word option \<Rightarrow> exn + bool" where
  "is_same_local_day w ts_ms =
     (case ts_ms of
        None \<Rightarrow> Inl TypeError
      | Some ts \<Rightarrow>
          let t = sint ts in
          if t < datetime_min_ms \<or> datetime_max_ms < t then Inl ValueError
          else
            let dt = t + utcoffset_ms w t in
            if dt < datetime_min_ms \<or> datetime_max_ms < dt then Inl OverflowError
            else
              let now = now_ms w + utcoffset_ms w (now_ms w)
              in Inr (dt div 86400000 = now div 86400000))"

definition translate_to_english :: "world \<Rightarrow> nat \<Rightarrow> pystr \<Rightarrow> exn + pystr" where
  "translate_to_english w i text =
     (case detect_language w i text of
        Inl e \<Rightarrow> Inl e
      | Inr lang \<Rightarrow>
          if lang \<noteq> Some (str_lit ''en'') then
            (case translate w i text of
               Inl e \<Rightarrow> Inl e
             | Inr t \<Rightarrow> Inr (case t of None \<Rightarrow> [] | Some x \<Rightarrow> x))
          else Inr text)"

text \<open>
  \<open>call_predict\<close> as the \<open>i\<close>-th coroutine of a \<open>gather\<close>. Before it returns the answer of
  the scoring service it prints it, and an answer that is a string is inserted in that
  line as it is.
\<close>

definition call_predict :: "world \<Rightarrow> nat \<Rightarrow> pystr \<Rightarrow> exn + pyval" where
  "call_predict w i text =
     (case translate_to_english w i text of
        Inl e \<Rightarrow> Inl e
      | Inr en \<Rightarrow>
          (case post_predict w i en of
             Inl e \<Rightarrow> Inl e
           | Inr r \<Rightarrow>
               if can_print w (str_text (py_repr w) r) then Inr r
               else Inl UnicodeEncodeError))"

section \<open>Process state\<close>

datatype log_event =
    Ignored_non_json_preload payload
  | Preloaded pyval pystr
  | Ignore_invalid pyval
  | History_preloaded
  | Realtime_started
  | Ignore_non_json payload
  | Triggered pyval "pystr list"
  | Prediction_failed
  | Sent_aggregated pyval "(pystr \<times> pyval) list"

text \<open>
  \<open>user_history\<close> is the global \<open>defaultdict\<close>; \<open>sent\<close> lists the dicts handed to
  \<open>send_and_wait\<close> on the result topic, \<open>predict_calls\<close> the texts \<open>call_predict\<close> was
  called with, and \<open>log\<close> what the two loops printed (the line that \<open>call_predict\<close>
  prints itself is not recorded), all in order. The lines that insert the user id or a
  message text as they are can fail to print; the others cannot: they insert the \<open>repr\<close>
  of bytes, of a dict or of a list, or are fixed, and the message of an exception of the
  translation or scoring client is taken to be text that standard output writes.
\<close>

record state =
  user_history :: "pyval \<rightharpoonup> pystr list"
  sent :: "(pystr \<times> pyval) list list"
  predict_calls :: "pystr list"
  log :: "log_event list"

definition init_state :: state where
  "init_state = \<lparr>user_history = Map.empty, sent = [], predict_calls = [], log = []\<rparr>"

text \<open>\<open>user_history[u]\<close>: a missing key is created with an empty deque.\<close>

definition history_lookup :: "(pyval \<rightharpoonup> pystr list) \<Rightarrow> pyval \<Rightarrow> (pyval \<rightharpoonup> pystr list) \<times> pystr list" where
  "history_lookup h u = (case h u of None \<Rightarrow> (h(u \<mapsto> []), []) | Some d \<Rightarrow> (h, d))"

text \<open>\<open>user_history[u].append(text)\<close>\<close>

definition history_append :: "(pyval \<rightharpoonup> pystr list) \<Rightarrow> pyval \<Rightarrow> pystr \<Rightarrow> (pyval \<rightharpoonup> pystr list)" where
  "history_append h u text = (case history_lookup h u of (h', d) \<Rightarrow> h'(u \<mapsto> deque_append d text))"

text \<open>\<open>list(user_history[u])\<close>: the texts of the window, oldest first.\<close>

definition snapshot :: "state \<Rightarrow> pyval \<Rightarrow> pystr list" where
  "snapshot st u = snd (history_lookup (user_history st) u)"

section \<open>Reading a record\<close>

text \<open>
  \<open>rec.get("chat_id")\<close>, \<open>str(rec.get("user_id"))\<close> and \<open>rec.get("message", "")\<close>. A parsed
  value that is not a dict has no \<open>get\<close>.
\<close>

definition read_fields :: "world \<Rightarrow> pyval \<Rightarrow> exn + (pyval \<times> pyval \<times> pyval)" where
  "read_fields w rec =
     (case rec of
        PDict d \<Rightarrow>
          Inr (dict_get d (str_lit ''chat_id'') PNone,
               py_str (py_repr w) (dict_get d (str_lit ''user_id'') PNone),
               dict_get d (str_lit ''message'') (PStr []))
      | _ \<Rightarrow> Inl AttributeError)"

section \<open>Backfill: \<open>preload_history\<close>\<close>

text \<open>
  The body of the innermost loop, for one message. The four tests are made from left to
  right, so the timestamp is only looked at for a watched record with a string text; the
  line "preloaded history messages" is printed after the append.
\<close>

definition preload_record :: "world \<Rightarrow> state \<Rightarrow> kafka_msg \<Rightarrow> exn option \<times> state" where
  "preload_record w st msg =
     (case loads_decode (val msg) of
        Inl e \<Rightarrow>
          if e = JSONDecodeError \<or> e = TypeError
          then (None, st\<lparr>log := log st @ [Ignored_non_json_preload (val msg)]\<rparr>)
          else (Some e, st)
      | Inr rec \<Rightarrow>
          (case read_fields w rec of
             Inl e \<Rightarrow> (Some e, st)
           | Inr (chat_id, user_id, text) \<Rightarrow>
               (case in_watch w chat_id of
                  Inl e \<Rightarrow> (Some e, st)
                | Inr watched \<Rightarrow>
                    if watched \<and> \<not> is_None user_id \<and> isinstance_str text
                    then (case text of
                            PStr s \<Rightarrow>
                              (case is_same_local_day w (timestamp msg) of
                                 Inl e \<Rightarrow> (Some e, st)
                               | Inr True \<Rightarrow>
                                   let st1 = st\<lparr>user_history :=
                                                  history_append (user_history st) user_id s\<rparr>
                                   in if can_print w (str_text (py_repr w) user_id @ s)
                                      then (None, st1\<lparr>log := log st @ [Preloaded user_id s]\<rparr>)
                                      else (Some UnicodeEncodeError, st1)
                               | Inr False \<Rightarrow>
                                   (None, st\<lparr>log := log st @ [Ignore_invalid rec]\<rparr>))
                          | _ \<Rightarrow> (None, st))
                    else (None, st\<lparr>log := log st @ [Ignore_invalid rec]\<rparr>))))"

text \<open>The messages of one batch, in order; an exception ends the loop.\<close>

fun preload_msgs :: "state \<Rightarrow> (world \<times> kafka_msg) list \<Rightarrow> exn option \<times> state" where
  "preload_msgs st [] = (None, st)"
| "preload_msgs st ((w, msg) # rest) =
     (case preload_record w st msg of
        (None, st') \<Rightarrow> preload_msgs st' rest
      | (Some e, st') \<Rightarrow> (Some e, st'))"

text \<open>
  The outer loop over the results of \<open>getmany\<close>, each a list of partitions with their
  messages. A batch without any message ends the phase, and so does the end of the list.
\<close>

fun preload_history :: "state \<Rightarrow> (nat \<times> (world \<times> kafka_msg) list) list list \<Rightarrow> exn option \<times> state" where
  "preload_history st [] = (None, st\<lparr>log := log st @ [History_preloaded]\<rparr>)"
| "preload_history st (batch # batches) =
     (if \<not> (\<exists>(tp, msgs) \<in> set batch. msgs \<noteq> [])
      then (None, st\<lparr>log := log st @ [History_preloaded]\<rparr>)
      else (case preload_msgs st (concat (map snd batch)) of
              (None, st') \<Rightarrow> preload_history st' batches
            | (Some e, st') \<Rightarrow> (Some e, st')))"

section \<open>The trigger pipeline\<close>

text \<open>
  The pattern \<open>^@music_recommender_iss_bot\s*\<close> tried at position \<open>pos\<close> of \<open>s\<close>: without
  the \<open>MULTILINE\<close> flag \<open>^\<close> holds at position 0 only, the marker is matched literally and
  \<open>\s*\<close> is greedy. The result is the position where the match ends.
\<close>

definition match_at :: "pystr \<Rightarrow> nat \<Rightarrow> nat option" where
  "match_at s pos =
     (if pos = 0 \<and> prefix BOT_MENTION (drop pos s)
      then Some (pos + length BOT_MENTION
                 + length (takeWhile isspace (drop (pos + length BOT_MENTION) s)))
      else None)"

text \<open>
  \<open>re.sub(pattern, '', s)\<close>: the string is scanned from the left; a match is replaced by
  the empty string and the scan goes on behind it, a character without a match is copied.
\<close>

function re_sub :: "nat \<Rightarrow> pystr \<Rightarrow> pystr" where
  "re_sub pos s =
     (if pos > length s then []
      else (case match_at s pos of
              Some e \<Rightarrow>
                if e > pos then re_sub e s
                else if pos < length s then s ! pos # re_sub (Suc pos) s else []
            | None \<Rightarrow>
                if pos < length s then s ! pos # re_sub (Suc pos) s else []))"
  by pat_completeness auto
termination
  by (relation "measure (\<lambda>(pos, s). Suc (length s) - pos)") auto

declare re_sub.simps [simp del]

definition clean :: "pystr \<Rightarrow> pystr" where
  "clean m = re_sub 0 m"

text \<open>
  \<open>asyncio.gather(..., return_exceptions=False)\<close>: the list of all results, or an
  exception when a coroutine raised. Which of several exceptions arrives depends on the
  timing, and the handler only prints it, so the failure carries no value here.
\<close>

fun gather :: "(exn + 'a) list \<Rightarrow> 'a list option" where
  "gather [] = Some []"
| "gather (Inl e # rs) = None"
| "gather (Inr x # rs) = (case gather rs of None \<Rightarrow> None | Some xs \<Rightarrow> Some (x # xs))"

text \<open>
  The numbers that \<open>agg\<close> holds while the sums are built: the integer 0 it starts from,
  and the results of \<open>+\<close>.
\<close>

datatype pynum = NInt int | NFloat pyfloat

fun num_val :: "pynum \<Rightarrow> pyval" where
  "num_val (NInt i) = PInt i"
| "num_val (NFloat f) = PFloat f"

text \<open>
  \<open>a + v\<close> for a number \<open>a\<close> and a parsed JSON value \<open>v\<close>. Integers are added exactly, a
  boolean counts as 1 or 0, an integer meeting a float is converted first
  (\<open>OverflowError\<close> when it is too large), and any other \<open>v\<close> is a \<open>TypeError\<close>.
\<close>

fun py_add :: "world \<Rightarrow> pynum \<Rightarrow> pyval \<Rightarrow> exn + pynum" where
  "py_add w (NInt a) (PInt b) = Inr (NInt (a + b))"
| "py_add w (NInt a) (PBool b) = Inr (NInt (a + (if b then 1 else 0)))"
| "py_add w (NInt a) (PFloat g) =
     (case int_to_float w a of None \<Rightarrow> Inl OverflowError
      | Some f \<Rightarrow> Inr (NFloat (float_add w f g)))"
| "py_add w (NFloat f) (PInt b) =
     (case int_to_float w b of None \<Rightarrow> Inl OverflowError
      | Some g \<Rightarrow> Inr (NFloat (float_add w f g)))"
| "py_add w (NFloat f) (PBool b) =
     (case int_to_float w (if b then 1 else 0) of None \<Rightarrow> Inl OverflowError
      | Some g \<Rightarrow> Inr (NFloat (float_add w f g)))"
| "py_add w (NFloat f) (PFloat g) = Inr (NFloat (float_add w f g))"
| "py_add w a v = Inl TypeError"

text \<open>
  The two nested loops that build \<open>agg\<close>: \<open>agg[k] = agg.get(k, 0) + v\<close> for the items of
  each result. A result that is not a dict has no \<open>items\<close>.
\<close>

fun add_items :: "world \<Rightarrow> (pystr \<times> pynum) list \<Rightarrow> (pystr \<times> pyval) list \<Rightarrow> exn + (pystr \<times> pynum) list" where
  "add_items w agg [] = Inr agg"
| "add_items w agg ((k, v) # r) =
     (case py_add w (dict_get agg k (NInt 0)) v of
        Inl e \<Rightarrow> Inl e
      | Inr x \<Rightarrow> add_items w (dict_set agg k x) r)"

fun aggregate :: "world \<Rightarrow> (pystr \<times> pynum) list \<Rightarrow> pyval list \<Rightarrow> exn + (pystr \<times> pynum) list" where
  "aggregate w agg [] = Inr agg"
| "aggregate w agg (r # results) =
     (case r of
        PDict items \<Rightarrow>
          (case add_items w agg items of
             Inl e \<Rightarrow> Inl e
           | Inr agg' \<Rightarrow> aggregate w agg' results)
      | _ \<Rightarrow> Inl AttributeError)"

text \<open>
  \<open>agg["user_id"] = user_id\<close>: from here on the dict holds the sums and the user id.
\<close>

definition with_user_id :: "(pystr \<times> pynum) list \<Rightarrow> pyval \<Rightarrow> (pystr \<times> pyval) list" where
  "with_user_id agg user_id =
     dict_set (map (\<lambda>(k, v). (k, num_val v)) agg) (str_lit ''user_id'') user_id"

text \<open>
  \<open>json.dumps(agg)\<close> writes the integers in decimal and raises \<open>ValueError\<close> for one with
  more digits than the interpreter converts. Strings are escaped to ASCII, and floats
  are written also when they are infinite or not a number.
\<close>

definition int_str_ok :: "world \<Rightarrow> int \<Rightarrow> bool" where
  "int_str_ok w i =
     (case max_str_digits w of
        None \<Rightarrow> True
      | Some n \<Rightarrow> length (digits (nat \<bar>i\<bar>)) \<le> n)"

definition dumps_ok :: "world \<Rightarrow> (pystr \<times> pyval) list \<Rightarrow> bool" where
  "dumps_ok w agg = list_all (\<lambda>(k, v). case v of PInt i \<Rightarrow> int_str_ok w i | _ \<Rightarrow> True) agg"

text \<open>
  The body of \<open>if BOT_MENTION in text\<close>. The trigger line inserts the user id as it is and
  the \<open>repr\<close> of the cleaned batch; it is printed before the calls are made. The sums and
  the JSON text are built outside the \<open>try\<close>, so an exception there leaves the loop. The
  last line inserts the user id again.
\<close>

definition trigger :: "world \<Rightarrow> state \<Rightarrow> pyval \<Rightarrow> exn option \<times> state" where
  "trigger w st user_id =
     (case history_lookup (user_history st) user_id of
        (h, batch) \<Rightarrow>
          let clean_batch = map clean batch;
              st0 = st\<lparr>user_history := h\<rparr>
          in if \<not> can_print w (str_text (py_repr w) user_id)
             then (Some UnicodeEncodeError, st0)
             else
               let st1 = st0\<lparr>log := log st @ [Triggered user_id clean_batch],
                             predict_calls := predict_calls st @ clean_batch\<rparr>
               in (case gather (map (\<lambda>(i, t). call_predict w i t) (enumerate 0 clean_batch)) of
                     None \<Rightarrow> (None, st1\<lparr>log := log st1 @ [Prediction_failed]\<rparr>)
                   | Some results \<Rightarrow>
                       (case aggregate w [] results of
                          Inl e \<Rightarrow> (Some e, st1)
                        | Inr sums \<Rightarrow>
                            let agg = with_user_id sums user_id;
                                st2 = st1\<lparr>sent := sent st1 @ [agg]\<rparr>
                            in if \<not> dumps_ok w agg then (Some ValueError, st1)
                               else
                                 (case send_and_wait w of
                                    Some e \<Rightarrow> (Some e, st2)
                                  | None \<Rightarrow>
                                      if can_print w (str_text (py_repr w) user_id)
                                      then (None, st2\<lparr>log := log st2 @ [Sent_aggregated user_id agg]\<rparr>)
                                      else (Some UnicodeEncodeError, st2)))))"

section \<open>Live phase: \<open>consume_and_process\<close>\<close>

text \<open>The step "renew user history": a text of today is appended to the user's window.\<close>

definition renew_history :: "world \<Rightarrow> state \<Rightarrow> pyval \<Rightarrow> pystr \<Rightarrow> 64 word option \<Rightarrow> exn + state" where
  "renew_history w st user_id text ts_ms =
     (case is_same_local_day w ts_ms of
        Inl e \<Rightarrow> Inl e
      | Inr True \<Rightarrow> Inr (st\<lparr>user_history := history_append (user_history st) user_id text\<rparr>)
      | Inr False \<Rightarrow> Inr st)"

text \<open>The body of the \<open>async for\<close> loop, for one message.\<close>

definition process_record :: "world \<Rightarrow> state \<Rightarrow> kafka_msg \<Rightarrow> exn option \<times> state" where
  "process_record w st msg =
     (case loads_decode (val msg) of
        Inl e \<Rightarrow>
          if e = JSONDecodeError \<or> e = TypeError
          then (None, st\<lparr>log := log st @ [Ignore_non_json (val msg)]\<rparr>)
          else (Some e, st)
      | Inr rec \<Rightarrow>
          (case read_fields w rec of
             Inl e \<Rightarrow> (Some e, st)
           | Inr (chat_id, user_id, text) \<Rightarrow>
               (case in_watch w chat_id of
                  Inl e \<Rightarrow> (Some e, st)
                | Inr watched \<Rightarrow>
                    if \<not> watched \<or> is_None user_id \<or> \<not> isinstance_str text
                    then (None, st)
                    else (case text of
                            PStr s \<Rightarrow>
                              (case renew_history w st user_id s (timestamp msg) of
                                 Inl e \<Rightarrow> (Some e, st)
                               | Inr st1 \<Rightarrow>
                                   if sublist BOT_MENTION s then trigger w st1 user_id
                                   else (None, st1))
                          | _ \<Rightarrow> (None, st)))))"

fun consume_loop :: "state \<Rightarrow> (world \<times> kafka_msg) list \<Rightarrow> exn option \<times> state" where
  "consume_loop st [] = (None, st)"
| "consume_loop st ((w, msg) # rest) =
     (case process_record w st msg of
        (None, st') \<Rightarrow> consume_loop st' rest
      | (Some e, st') \<Rightarrow> (Some e, st'))"

text \<open>
  The live loop has no end of its own; it is run here on the messages that arrive up to
  some moment.
\<close>

definition consume_and_process :: "state \<Rightarrow> (world \<times> kafka_msg) list \<Rightarrow> exn option \<times> state" where
  "consume_and_process st msgs = consume_loop (st\<lparr>log := log st @ [Realtime_started]\<rparr>) msgs"

text \<open>\<open>main\<close>: the backfill, then the live phase unless the backfill raised.\<close>

definition main :: "(nat \<times> (world \<times> kafka_msg) list) list list \<Rightarrow> (world \<times> kafka_msg) list \<Rightarrow> exn option \<times> state" where
  "main backlog live =
     (case preload_history init_state backlog of
        (None, st) \<Rightarrow> consume_and_process st live
      | (Some e, st) \<Rightarrow> (Some e, st))"

section \<open>The admissions of a run\<close>

text \<open>
  The tests that both loops make before they append a text (the chat is watched, the
  user id is not \<open>None\<close>, the text is a string, the timestamp is of today), on their own:
  for a message that passes them, the key of the window and the text.
\<close>

definition admission :: "world \<Rightarrow> kafka_msg \<Rightarrow> (pyval \<times> pystr) option" where
  "admission w msg =
     (case loads_decode (val msg) of
        Inl e \<Rightarrow> None
      | Inr rec \<Rightarrow>
          (case read_fields w rec of
             Inl e \<Rightarrow> None
           | Inr (chat_id, user_id, text) \<Rightarrow>
               (case text of
                  PStr s \<Rightarrow>
                    if in_watch w chat_id = Inr True \<and> \<not> is_None user_id
                       \<and> is_same_local_day w (timestamp msg) = Inr True
                    then Some (user_id, s) else None
                | _ \<Rightarrow> None)))"

text \<open>The texts that a list of messages admits to the window of \<open>u\<close>, in order.\<close>

fun admitted_texts :: "pyval \<Rightarrow> (world \<times> kafka_msg) list \<Rightarrow> pystr list" where
  "admitted_texts u [] = []"
| "admitted_texts u ((w, msg) # rest) =
     (case admission w msg of
        Some (u', s) \<Rightarrow> if u' = u then s # admitted_texts u rest else admitted_texts u rest
      | None \<Rightarrow> admitted_texts u rest)"

text \<open>
  The messages that a loop with the body \<open>step\<close> gets to: all of them, or those up to
  and including the one at which an exception leaves the loop.
\<close>

fun handled :: "(world \<Rightarrow> state \<Rightarrow> kafka_msg \<Rightarrow> exn option \<times> state) \<Rightarrow> state \<Rightarrow>
    (world \<times> kafka_msg) list \<Rightarrow> (world \<times> kafka_msg) list" where
  "handled step st [] = []"
| "handled step st ((w, msg) # rest) =
     (case step w st msg of
        (None, st') \<Rightarrow> (w, msg) # handled step st' rest
      | (Some e, st') \<Rightarrow> [(w, msg)])"

text \<open>The same for the backfill with its batches, and for the whole run.\<close>

fun preload_handled :: "state \<Rightarrow> (nat \<times> (world \<times> kafka_msg) list) list list \<Rightarrow>
    (world \<times> kafka_msg) list" where
  "preload_handled st [] = []"
| "preload_handled st (batch # batches) =
     (if \<not> (\<exists>(tp, msgs) \<in> set batch. msgs \<noteq> []) then []
      else (case preload_msgs st (concat (map snd batch)) of
              (None, st') \<Rightarrow> concat (map snd batch) @ preload_handled st' batches
            | (Some e, st') \<Rightarrow> handled preload_record st (concat (map snd batch))))"

definition main_handled :: "(nat \<times> (world \<times> kafka_msg) list) list list \<Rightarrow>
    (world \<times> kafka_msg) list \<Rightarrow> (world \<times> kafka_msg) list" where
  "main_handled backlog live =
     (case preload_history init_state backlog of
        (None, st) \<Rightarrow>
          preload_handled init_state backlog
          @ handled process_record (st\<lparr>log := log st @ [Realtime_started]\<rparr>) live
      | (Some e, st) \<Rightarrow> preload_handled init_state backlog)"

section \<open>The sum of a field\<close>

text \<open>
  The values that the score maps give to the field \<open>k\<close>, in the order of the score maps
  (a score map without the field gives none), and their sum as Python builds it: from
  the left, starting with the integer 0.
\<close>

fun field_values :: "pystr \<Rightarrow> pyval list \<Rightarrow> pyval list" where
  "field_values k [] = []"
| "field_values k (r # results) =
     (case r of
        PDict d \<Rightarrow>
          (case map_of d k of
             Some v \<Rightarrow> v # field_values k results
           | None \<Rightarrow> field_values k results)
      | _ \<Rightarrow> field_values k results)"

fun field_sum :: "world \<Rightarrow> pynum \<Rightarrow> pyval list \<Rightarrow> exn + pynum" where
  "field_sum w a [] = Inr a"
| "field_sum w a (v # vs) =
     (case py_add w a v of Inl e \<Rightarrow> Inl e | Inr x \<Rightarrow> field_sum w x vs)"

text \<open>The keys of a dict are distinct; this says so of the score maps.\<close>

fun dicts_wf :: "pyval list \<Rightarrow> bool" where
  "dicts_wf [] = True"
| "dicts_wf (r # results) =
     ((case r of PDict d \<Rightarrow> distinct (map fst d) | _ \<Rightarrow> True) \<and> dicts_wf results)"

section \<open>Example inputs\<close>

text \<open>
  A world in which every text is detected as English, the scoring service answers every
  call with \<open>{"pos": 1}\<close>, sending succeeds, standard output writes no surrogate, the
  zone is UTC, the clock reads the first millisecond of day 1 and integers are written
  with up to 4300 digits; and a message whose payload is a JSON object.
\<close>

definition example_world :: world where
  "example_world =
     \<lparr>now_ms = 86400000,
      utcoffset_ms = (\<lambda>t. 0),
      stdout_writes = (\<lambda>c. False),
      detect_language = (\<lambda>i t. Inr (Some (str_lit ''en''))),
      translate = (\<lambda>i t. Inr (Some t)),
      post_predict = (\<lambda>i t. Inr (PDict [(str_lit ''pos'', PInt 1)])),
      send_and_wait = None,
      py_repr = (\<lambda>v. []),
      float_add = (\<lambda>f g. 0),
      int_to_float = (\<lambda>i. None),
      float_eq_int = (\<lambda>f i. False),
      max_str_digits = Some 4300\<rparr>"

definition json_msg :: "(pystr \<times> pyval) list \<Rightarrow> 64 word \<Rightarrow> kafka_msg" where
  "json_msg d ts = \<lparr>val = Json (PDict d), timestamp = Some ts\<rparr>"

definition example_record :: "pyval \<Rightarrow> pyval \<Rightarrow> (pystr \<times> pyval) list" where
  "example_record user text =
     [(str_lit ''chat_id'', PInt (- 4714765877)), (str_lit ''user_id'', user),
      (str_lit ''message'', text)]"

definition mention_text :: pystr where
  "mention_text = str_lit ''@music_recommender_iss_bot rate these''"

text \<open>
  Worlds whose scoring service fails for the second call only, answers the two score
  maps of the specification, and answers \<open>{"user_id": 5}\<close>.
\<close>

definition failing_world :: world where
  "failing_world =
     example_world\<lparr>post_predict :=
       (\<lambda>i t. if i = 0 then Inr (PDict [(str_lit ''pos'', PInt 1)]) else Inl ClientError)\<rparr>"

definition two_maps_world :: world where
  "two_maps_world =
     example_world\<lparr>post_predict :=
       (\<lambda>i t. if i = 0 then Inr (PDict [(str_lit ''pos'', PInt 1), (str_lit ''neu'', PInt 2)])
               else Inr (PDict [(str_lit ''pos'', PInt 3), (str_lit ''energy'', PInt 5)]))\<rparr>"

definition user_id_world :: world where
  "user_id_world =
     example_world\<lparr>post_predict := (\<lambda>i t. Inr (PDict [(str_lit ''user_id'', PInt 5)]))\<rparr>"

text \<open>States in which user 42 has one and two buffered texts.\<close>

definition one_text_state :: state where
  "one_text_state = init_state\<lparr>user_history := [PStr (str_lit ''42'') \<mapsto> [str_lit ''hi'']]\<rparr>"

definition two_text_state :: state where
  "two_text_state =
     init_state\<lparr>user_history := [PStr (str_lit ''42'') \<mapsto> [str_lit ''hi'', str_lit ''yo'']]\<rparr>"

text \<open>
  A watched record without \<open>user_id\<close>, one without \<open>message\<close>, a message whose bytes are
  not UTF-8, a user id that is the lone surrogate \<open>U+D800\<close>, and the first millisecond of
  the year 10000.
\<close>

definition no_user_record :: "(pystr \<times> pyval) list" where
  "no_user_record =
     [(str_lit ''chat_id'', PInt (- 4714765877)), (str_lit ''message'', PStr (str_lit ''hi''))]"

definition no_message_record :: "(pystr \<times> pyval) list" where
  "no_message_record =
     [(str_lit ''chat_id'', PInt (- 4714765877)), (str_lit ''user_id'', PInt 42)]"

definition not_utf8_msg :: kafka_msg where
  "not_utf8_msg = \<lparr>val = Not_utf8, timestamp = Some 86400000\<rparr>"


definition year_10000 :: "64 word" where
  "year_10000 = 253402300800000"

text \<open>
  The end-to-end scenario of the specification: user 42 sends eleven plain messages
  today and then one that starts with the marker.
\<close>

definition plain_msg :: "nat \<Rightarrow> world \<times> kafka_msg" where
  "plain_msg i = (example_world, json_msg (example_record (PInt 42) (PStr [97 + i])) 86400000)"

definition scenario :: "(world \<times> kafka_msg) list" where
  "scenario =
     map plain_msg [0, 1, 2, 3, 4, 5, 6, 7, 8, 9, 10]
     @ [(example_world, json_msg (example_record (PInt 42) (PStr mention_text)) 86400000)]"

section \<open>Window capacity\<close>

lemma length_deque_append:
  "length d \<le> maxlen \<Longrightarrow> length (deque_append d x) \<le> maxlen"
  by (simp add: deque_append_def Let_def)

lemma admit_all_drop:
  "length d \<le> maxlen \<Longrightarrow> admit_all d xs = drop (length (d @ xs) - maxlen) (d @ xs)"
proof (induction xs arbitrary: d)
  case Nil
  then show ?case by simp
next
  case (Cons x xs)
  have len: "length (deque_append d x) \<le> maxlen"
    using Cons.prems by (rule length_deque_append)
  show ?case
  proof (cases "length d < maxlen")
    case True
    then have "deque_append d x = d @ [x]"
      by (simp add: deque_append_def Let_def)
    with Cons.IH [OF len] show ?thesis by simp
  next
    case False
    with Cons.prems have eq: "length d = maxlen" by simp
    then obtain y ys where d: "d = y # ys"
      by (cases d) (auto simp: maxlen_def)
    from eq d have da: "deque_append d x = ys @ [x]"
      by (simp add: deque_append_def Let_def)
    from eq d have l1: "length (d @ x # xs) - maxlen = Suc (length xs)"
      by simp
    from eq d have l2: "length ((ys @ [x]) @ xs) - maxlen = length xs"
      by simp
    have "admit_all d (x # xs) = admit_all (ys @ [x]) xs"
      using da by simp
    also have "\<dots> = drop (length xs) ((ys @ [x]) @ xs)"
      using Cons.IH [OF len] by (simp only: da l2)
    also have "\<dots> = drop (Suc (length xs)) (d @ x # xs)"
      using d by simp
    finally show ?thesis
      using l1 by simp
  qed
qed

section \<open>Stripping the mention\<close>

lemma BOT_MENTION_codes:
  "BOT_MENTION = [64,109,117,115,105,99,95,114,101,99,111,109,109,101,110,100,101,114,95,105,115,115,95,98,111,116]"
  by (simp add: BOT_MENTION_def str_lit_def)

lemma length_BOT_MENTION: "length BOT_MENTION = 26"
  by (simp add: BOT_MENTION_codes)

lemma match_at_pos: "0 < pos \<Longrightarrow> match_at s pos = None"
  by (simp add: match_at_def)

lemma re_sub_tail: "0 < pos \<Longrightarrow> pos \<le> length s \<Longrightarrow> re_sub pos s = drop pos s"
proof (induction "length s - pos" arbitrary: pos)
  case 0
  then have "pos = length s" by simp
  with 0 show ?case
    by (subst re_sub.simps) (simp add: match_at_pos)
next
  case (Suc n)
  then have lt: "pos < length s" by simp
  from Suc have "re_sub (Suc pos) s = drop (Suc pos) s" by simp
  with lt Suc.prems show ?case
    by (subst re_sub.simps) (simp add: match_at_pos Cons_nth_drop_Suc)
qed

lemma clean_no_prefix: "\<not> prefix BOT_MENTION m \<Longrightarrow> clean m = m"
proof (cases m)
  case Nil
  then show ?thesis
    unfolding clean_def by (subst re_sub.simps) (simp add: match_at_def)
next
  case (Cons c cs)
  assume np: "\<not> prefix BOT_MENTION m"
  have "re_sub (Suc 0) m = drop (Suc 0) m"
    using Cons by (intro re_sub_tail) simp_all
  with np Cons show ?thesis
    unfolding clean_def by (subst re_sub.simps) (simp add: match_at_def)
qed

lemma clean_prefix:
  assumes "prefix BOT_MENTION m"
  shows "clean m = dropWhile isspace (drop (length BOT_MENTION) m)"
proof -
  define r where "r = drop (length BOT_MENTION) m"
  define e where "e = length BOT_MENTION + length (takeWhile isspace r)"
  have m: "m = BOT_MENTION @ r"
    using assms by (auto simp: r_def prefix_def)
  have ma: "match_at m 0 = Some e"
    using assms by (simp add: match_at_def e_def r_def)
  have e0: "0 < e" by (simp add: e_def length_BOT_MENTION)
  have "length (takeWhile isspace r) \<le> length r"
    by (rule length_takeWhile_le)
  then have ele: "e \<le> length m"
    by (subst m) (simp add: e_def)
  have "clean m = re_sub e m"
    unfolding clean_def using ma e0 ele by (subst re_sub.simps) simp
  also have "\<dots> = drop e m"
    using e0 ele by (rule re_sub_tail)
  also have "\<dots> = drop (length (takeWhile isspace r)) r"
    by (subst m) (simp add: e_def)
  also have "\<dots> = dropWhile isspace r"
    by (simp add: dropWhile_eq_drop)
  finally show ?thesis by (simp add: r_def)
qed

text \<open>
  Claim C6. Cleaning a buffered text removes the mention marker and the whitespace that
  directly follows it when the text starts with the marker, once, and leaves every other
  text as it is; the two example texts of the specification are cleaned as it says.
\<close>

theorem clean_strips_leading_mention:
  "clean m = (if prefix BOT_MENTION m then dropWhile isspace (drop (length BOT_MENTION) m) else m)
   \<and> clean (str_lit ''hello @music_recommender_iss_bot'') = str_lit ''hello @music_recommender_iss_bot''
   \<and> clean (str_lit ''@music_recommender_iss_bot  rate this'') = str_lit ''rate this''"
proof (intro conjI)
  show "clean m = (if prefix BOT_MENTION m then dropWhile isspace (drop (length BOT_MENTION) m) else m)"
    by (simp add: clean_prefix clean_no_prefix)
  show "clean (str_lit ''hello @music_recommender_iss_bot'') = str_lit ''hello @music_recommender_iss_bot''"
    by (rule clean_no_prefix) (simp add: BOT_MENTION_codes str_lit_def)
  show "clean (str_lit ''@music_recommender_iss_bot  rate this'') = str_lit ''rate this''"
    by (subst clean_prefix) (simp_all add: BOT_MENTION_codes str_lit_def isspace_def)
qed

section \<open>Dictionaries and the aggregate\<close>

lemma map_of_dict_set: "map_of (dict_set d k v) = (map_of d)(k \<mapsto> v)"
  by (induction d k v rule: dict_set.induct) auto

lemma keys_dict_set: "fst ` set (dict_set d k v) = insert k (fst ` set d)"
  by (induction d k v rule: dict_set.induct) auto

lemma dict_get_dict_set:
  "dict_get (dict_set d k v) k' dflt = (if k' = k then v else dict_get d k' dflt)"
  by (simp add: dict_get_def map_of_dict_set)

lemma map_of_dict_get:
  "map_of d k = (if k \<in> fst ` set d then Some (dict_get d k dflt) else None)"
  by (cases "map_of d k") (auto simp: dict_get_def map_of_eq_None_iff dest: map_of_SomeD intro: rev_image_eqI)

lemma dict_get_Cons:
  "dict_get ((k', v) # d) k dflt = (if k = k' then v else dict_get d k dflt)"
  by (simp add: dict_get_def)

lemma dict_get_Nil: "dict_get [] k dflt = dflt"
  by (simp add: dict_get_def)

lemma keys_add_items:
  "add_items w agg r = Inr agg' \<Longrightarrow> fst ` set agg' = fst ` set agg \<union> fst ` set r"
proof (induction w agg r rule: add_items.induct)
  case (1 w agg)
  then show ?case by simp
next
  case (2 w agg k v r)
  then obtain x where x: "py_add w (dict_get agg k (NInt 0)) v = Inr x"
    and rest: "add_items w (dict_set agg k x) r = Inr agg'"
    by (auto split: sum.splits)
  from "2.IH" [OF x rest] show ?case
    by (auto simp: keys_dict_set)
qed

lemma map_of_add_items_absent:
  "add_items w agg r = Inr agg' \<Longrightarrow> k \<notin> fst ` set r \<Longrightarrow> map_of agg' k = map_of agg k"
proof (induction w agg r rule: add_items.induct)
  case (1 w agg)
  then show ?case by simp
next
  case (2 w agg k' v r)
  then obtain x where x: "py_add w (dict_get agg k' (NInt 0)) v = Inr x"
    and rest: "add_items w (dict_set agg k' x) r = Inr agg'"
    by (auto split: sum.splits)
  from "2.prems" have "k \<noteq> k'" and "k \<notin> fst ` set r" by auto
  with "2.IH" [OF x rest] show ?case
    by (simp add: map_of_dict_set)
qed

lemma add_items_present:
  "distinct (map fst r) \<Longrightarrow> add_items w agg r = Inr agg' \<Longrightarrow> map_of r k = Some v \<Longrightarrow>
   py_add w (dict_get agg k (NInt 0)) v = Inr (dict_get agg' k (NInt 0))"
proof (induction w agg r rule: add_items.induct)
  case (1 w agg)
  then show ?case by simp
next
  case (2 w agg k' v' r)
  then obtain x where x: "py_add w (dict_get agg k' (NInt 0)) v' = Inr x"
    and rest: "add_items w (dict_set agg k' x) r = Inr agg'"
    by (auto split: sum.splits)
  from "2.prems"(1) have notin: "k' \<notin> fst ` set r" and dist: "distinct (map fst r)"
    by auto
  show ?case
  proof (cases "k = k'")
    case True
    with "2.prems"(3) have v: "v = v'" by simp
    have "map_of agg' k' = map_of (dict_set agg k' x) k'"
      using rest notin by (rule map_of_add_items_absent)
    then have "dict_get agg' k' (NInt 0) = x"
      by (simp add: dict_get_def map_of_dict_set)
    with x True v show ?thesis by simp
  next
    case False
    with "2.prems"(3) have "map_of r k = Some v" by simp
    from "2.IH" [OF x dist rest this] False show ?thesis
      by (simp add: dict_get_dict_set)
  qed
qed

lemma aggregate_keys:
  "aggregate w agg results = Inr agg' \<Longrightarrow>
   k \<in> fst ` set agg' \<longleftrightarrow> k \<in> fst ` set agg \<or> field_values k results \<noteq> []"
proof (induction w agg results rule: aggregate.induct)
  case (1 w agg)
  then show ?case by simp
next
  case (2 w agg r results)
  then obtain d mid where r: "r = PDict d"
    and mid: "add_items w agg d = Inr mid"
    and rest: "aggregate w mid results = Inr agg'"
    by (auto split: pyval.splits sum.splits)
  have keys: "fst ` set mid = fst ` set agg \<union> fst ` set d"
    using mid by (rule keys_add_items)
  have "k \<in> fst ` set d \<longleftrightarrow> map_of d k \<noteq> None"
    by (simp add: map_of_eq_None_iff)
  with "2.IH" [OF r mid rest] keys r show ?case
    by (auto split: option.splits)
qed

lemma aggregate_field_sum:
  "dicts_wf results \<Longrightarrow> aggregate w agg results = Inr agg' \<Longrightarrow>
   field_sum w (dict_get agg k (NInt 0)) (field_values k results)
     = Inr (dict_get agg' k (NInt 0))"
proof (induction w agg results rule: aggregate.induct)
  case (1 w agg)
  then show ?case by simp
next
  case (2 w agg r results)
  then obtain d mid where r: "r = PDict d"
    and mid: "add_items w agg d = Inr mid"
    and rest: "aggregate w mid results = Inr agg'"
    by (auto split: pyval.splits sum.splits)
  from "2.prems"(1) r have dist: "distinct (map fst d)" and wf: "dicts_wf results"
    by simp_all
  note ih = "2.IH" [OF r mid wf rest]
  show ?case
  proof (cases "map_of d k")
    case None
    then have "k \<notin> fst ` set d"
      by (simp add: map_of_eq_None_iff)
    with mid have "map_of mid k = map_of agg k"
      by (rule map_of_add_items_absent)
    then have "dict_get mid k (NInt 0) = dict_get agg k (NInt 0)"
      by (simp add: dict_get_def)
    with ih None r show ?thesis by simp
  next
    case (Some v)
    from add_items_present [OF dist mid Some]
    have "py_add w (dict_get agg k (NInt 0)) v = Inr (dict_get mid k (NInt 0))" .
    with ih Some r show ?thesis by simp
  qed
qed

lemma aggregate_field:
  assumes "dicts_wf results" and "aggregate w [] results = Inr agg"
  shows "(field_values k results = [] \<longrightarrow> map_of agg k = None)
       \<and> (field_values k results \<noteq> [] \<longrightarrow>
            (\<exists>t. field_sum w (NInt 0) (field_values k results) = Inr t \<and> map_of agg k = Some t))"
proof -
  have keys: "k \<in> fst ` set agg \<longleftrightarrow> field_values k results \<noteq> []"
    using aggregate_keys [OF assms(2), of k] by simp
  have sum: "field_sum w (NInt 0) (field_values k results) = Inr (dict_get agg k (NInt 0))"
    using aggregate_field_sum [OF assms, of k] by (simp add: dict_get_Nil)
  have m: "map_of agg k = (if k \<in> fst ` set agg then Some (dict_get agg k (NInt 0)) else None)"
    by (rule map_of_dict_get)
  show ?thesis
    using keys sum m by auto
qed

lemma field_sum_ints:
  "field_sum w (NInt a) (map PInt xs) = Inr (NInt (a + sum_list xs))"
  by (induction xs arbitrary: a) (simp_all add: add.assoc)

lemma map_of_with_user_id:
  "map_of (with_user_id agg u) k =
     (if k = str_lit ''user_id'' then Some u else map_option num_val (map_of agg k))"
  by (simp add: with_user_id_def map_of_dict_set map_of_map)

section \<open>One record of a loop\<close>

lemma gather_None_iff: "gather rs = None \<longleftrightarrow> (\<exists>r\<in>set rs. isl r)"
  by (induction rs rule: gather.induct) (auto split: option.splits)

lemma gather_failed_call:
  assumes "i < length ts" and "f i (ts ! i) = Inl e"
  shows "gather (map (\<lambda>(i, t). f i t) (enumerate 0 ts)) = None"
proof -
  have "(i, ts ! i) \<in> set (enumerate 0 ts)"
    using assms(1) by (auto simp: in_set_enumerate_eq)
  then have "Inl e \<in> set (map (\<lambda>(i, t). f i t) (enumerate 0 ts))"
    using assms(2) by force
  then show ?thesis
    unfolding gather_None_iff by (intro bexI [where x = "Inl e"]) simp_all
qed

lemma read_fields_not_None:
  "read_fields w rec = Inr (chat_id, user_id, text) \<Longrightarrow> \<not> is_None user_id"
  by (auto simp: read_fields_def py_str_def is_None_def split: pyval.splits)

lemma snapshot_history_lookup:
  "history_lookup (user_history st) u = (fst (history_lookup (user_history st) u), snapshot st u)"
  by (simp add: snapshot_def)

lemma snapshot_history_append_cases:
  "snapshot (st\<lparr>user_history := history_append (user_history st) v s\<rparr>) u
     = (if u = v then deque_append (snapshot st u) s else snapshot st u)"
  by (simp add: snapshot_def history_append_def history_lookup_def split: option.splits)

lemma snapshot_log_update [simp]: "snapshot (st\<lparr>log := l\<rparr>) u = snapshot st u"
  by (simp add: snapshot_def)

lemma renew_history_same_day:
  "is_same_local_day w ts = Inr True \<Longrightarrow>
   renew_history w st u s ts = Inr (st\<lparr>user_history := history_append (user_history st) u s\<rparr>)"
  by (simp add: renew_history_def)



lemma process_record_valid:
  assumes "loads_decode (val msg) = Inr rec"
      and "read_fields w rec = Inr (chat_id, user_id, PStr s)"
      and "in_watch w chat_id = Inr True"
  shows "process_record w st msg =
           (case renew_history w st user_id s (timestamp msg) of
              Inl e \<Rightarrow> (Some e, st)
            | Inr st1 \<Rightarrow>
                if sublist BOT_MENTION s then trigger w st1 user_id else (None, st1))"
  using assms read_fields_not_None [OF assms(2)]
  by (simp add: process_record_def isinstance_str_def)

lemma preload_record_valid:
  assumes "loads_decode (val msg) = Inr rec"
      and "read_fields w rec = Inr (chat_id, user_id, PStr s)"
      and "in_watch w chat_id = Inr True"
  shows "preload_record w st msg =
           (case is_same_local_day w (timestamp msg) of
              Inl e \<Rightarrow> (Some e, st)
            | Inr True \<Rightarrow>
                if can_print w (str_text (py_repr w) user_id @ s)
                then (None, st\<lparr>user_history := history_append (user_history st) user_id s,
                               log := log st @ [Preloaded user_id s]\<rparr>)
                else (Some UnicodeEncodeError,
                      st\<lparr>user_history := history_append (user_history st) user_id s\<rparr>)
            | Inr False \<Rightarrow> (None, st\<lparr>log := log st @ [Ignore_invalid rec]\<rparr>))"
  using assms read_fields_not_None [OF assms(2)]
  by (simp add: preload_record_def isinstance_str_def Let_def split: sum.splits bool.splits)

lemma trigger_unprintable:
  assumes "\<not> can_print w (str_text (py_repr w) u)"
  shows "trigger w st u =
           (Some UnicodeEncodeError, st\<lparr>user_history := fst (history_lookup (user_history st) u)\<rparr>)"
  using assms
  by (subst trigger_def, subst snapshot_history_lookup) (simp add: Let_def)

lemma trigger_failed:
  assumes "can_print w (str_text (py_repr w) u)"
      and "gather (map (\<lambda>(i, t). call_predict w i t) (enumerate 0 (map clean (snapshot st u)))) = None"
  shows "trigger w st u =
           (None, st\<lparr>user_history := fst (history_lookup (user_history st) u),
                     log := log st @ [Triggered u (map clean (snapshot st u)), Prediction_failed],
                     predict_calls := predict_calls st @ map clean (snapshot st u)\<rparr>)"
  using assms
  by (subst trigger_def, subst snapshot_history_lookup) (simp add: Let_def)

lemma trigger_sum_error:
  assumes "can_print w (str_text (py_repr w) u)"
      and "gather (map (\<lambda>(i, t). call_predict w i t) (enumerate 0 (map clean (snapshot st u)))) = Some results"
      and "aggregate w [] results = Inl e"
  shows "trigger w st u =
           (Some e, st\<lparr>user_history := fst (history_lookup (user_history st) u),
                       log := log st @ [Triggered u (map clean (snapshot st u))],
                       predict_calls := predict_calls st @ map clean (snapshot st u)\<rparr>)"
  using assms
  by (subst trigger_def, subst snapshot_history_lookup) (simp add: Let_def)

lemma trigger_dumps_error:
  assumes "can_print w (str_text (py_repr w) u)"
      and "gather (map (\<lambda>(i, t). call_predict w i t) (enumerate 0 (map clean (snapshot st u)))) = Some results"
      and "aggregate w [] results = Inr sums"
      and "\<not> dumps_ok w (with_user_id sums u)"
  shows "trigger w st u =
           (Some ValueError, st\<lparr>user_history := fst (history_lookup (user_history st) u),
                                log := log st @ [Triggered u (map clean (snapshot st u))],
                                predict_calls := predict_calls st @ map clean (snapshot st u)\<rparr>)"
  using assms
  by (subst trigger_def, subst snapshot_history_lookup) (simp add: Let_def)

lemma trigger_succeeded:
  assumes "can_print w (str_text (py_repr w) u)"
      and "gather (map (\<lambda>(i, t). call_predict w i t) (enumerate 0 (map clean (snapshot st u)))) = Some results"
      and "aggregate w [] results = Inr sums"
      and "dumps_ok w (with_user_id sums u)"
  shows "trigger w st u =
           (send_and_wait w,
            st\<lparr>user_history := fst (history_lookup (user_history st) u),
               log := log st @ [Triggered u (map clean (snapshot st u))]
                      @ (case send_and_wait w of
                           None \<Rightarrow> [Sent_aggregated u (with_user_id sums u)]
                         | Some e \<Rightarrow> []),
               predict_calls := predict_calls st @ map clean (snapshot st u),
               sent := sent st @ [with_user_id sums u]\<rparr>)"
  using assms
  by (subst trigger_def, subst snapshot_history_lookup) (simp add: Let_def split: option.splits)

lemma trigger_cases:
  obtains "\<not> can_print w (str_text (py_repr w) u)"
  | "can_print w (str_text (py_repr w) u)"
    "gather (map (\<lambda>(i, t). call_predict w i t) (enumerate 0 (map clean (snapshot st u)))) = None"
  | results e where "can_print w (str_text (py_repr w) u)"
    "gather (map (\<lambda>(i, t). call_predict w i t) (enumerate 0 (map clean (snapshot st u)))) = Some results"
    "aggregate w [] results = Inl e"
  | results sums where "can_print w (str_text (py_repr w) u)"
    "gather (map (\<lambda>(i, t). call_predict w i t) (enumerate 0 (map clean (snapshot st u)))) = Some results"
    "aggregate w [] results = Inr sums" "\<not> dumps_ok w (with_user_id sums u)"
  | results sums where "can_print w (str_text (py_repr w) u)"
    "gather (map (\<lambda>(i, t). call_predict w i t) (enumerate 0 (map clean (snapshot st u)))) = Some results"
    "aggregate w [] results = Inr sums" "dumps_ok w (with_user_id sums u)"
proof (cases "can_print w (str_text (py_repr w) u)")
  case False
  then show ?thesis by (rule that(1))
next
  case True
  show ?thesis
  proof (cases "gather (map (\<lambda>(i, t). call_predict w i t) (enumerate 0 (map clean (snapshot st u))))")
    case None
    with True show ?thesis by (rule that(2))
  next
    case (Some results)
    show ?thesis
    proof (cases "aggregate w [] results")
      case (Inl e)
      with True Some show ?thesis by (rule that(3))
    next
      case (Inr sums)
      show ?thesis
      proof (cases "dumps_ok w (with_user_id sums u)")
        case False
        with True Some Inr show ?thesis by (rule that(4))
      next
        case ok: True
        with True Some Inr show ?thesis by (rule that(5))
      qed
    qed
  qed
qed

lemma trigger_history:
  "user_history (snd (trigger w st u)) = fst (history_lookup (user_history st) u)"
  by (cases rule: trigger_cases [where w = w and u = u and st = st])
     (simp_all add: trigger_unprintable trigger_failed trigger_sum_error trigger_dumps_error
        trigger_succeeded)

lemma snapshot_trigger: "snapshot (snd (trigger w st u)) v = snapshot st v"
  by (simp add: snapshot_def trigger_history history_lookup_def split: option.splits)

lemma trigger_calls:
  "predict_calls (snd (trigger w st u)) =
     predict_calls st @ (if can_print w (str_text (py_repr w) u)
                         then map clean (snapshot st u) else [])"
  by (cases rule: trigger_cases [where w = w and u = u and st = st])
     (simp_all add: trigger_unprintable trigger_failed trigger_sum_error trigger_dumps_error
        trigger_succeeded)

lemma trigger_log:
  "take (Suc (length (log st))) (log (snd (trigger w st u))) =
     log st @ (if can_print w (str_text (py_repr w) u)
               then [Triggered u (map clean (snapshot st u))] else [])"
  by (cases rule: trigger_cases [where w = w and u = u and st = st])
     (simp_all add: trigger_unprintable trigger_failed trigger_sum_error trigger_dumps_error
        trigger_succeeded)

lemma last_deque_append: "last (deque_append d x) = x"
proof (cases d)
  case Nil
  then show ?thesis by (simp add: deque_append_def maxlen_def)
next
  case (Cons y ys)
  then show ?thesis by (simp add: deque_append_def Let_def)
qed

lemma BOT_MENTION_not_in_empty: "BOT_MENTION \<noteq> []"
  by (simp add: BOT_MENTION_codes)

lemma process_record_unwatched:
  assumes "loads_decode (val msg) = Inr rec"
      and "read_fields w rec = Inr (chat_id, user_id, text)"
      and "in_watch w chat_id = Inr False"
  shows "process_record w st msg = (None, st)"
  using assms by (simp add: process_record_def)

lemma process_record_not_str:
  assumes "loads_decode (val msg) = Inr rec"
      and "read_fields w rec = Inr (chat_id, user_id, text)"
      and "in_watch w chat_id = Inr watched"
      and "\<not> isinstance_str text"
  shows "process_record w st msg = (None, st)"
  using assms by (simp add: process_record_def)

lemma preload_record_filtered:
  assumes "loads_decode (val msg) = Inr rec"
      and "read_fields w rec = Inr (chat_id, user_id, text)"
      and "in_watch w chat_id = Inr watched"
      and "\<not> watched \<or> \<not> isinstance_str text"
  shows "preload_record w st msg = (None, st\<lparr>log := log st @ [Ignore_invalid rec]\<rparr>)"
  using assms by (auto simp: preload_record_def)

lemma process_record_not_json:
  "val msg = Not_json \<Longrightarrow>
   process_record w st msg = (None, st\<lparr>log := log st @ [Ignore_non_json Not_json]\<rparr>)"
  by (simp add: process_record_def)

lemma preload_record_not_json:
  "val msg = Not_json \<Longrightarrow>
   preload_record w st msg = (None, st\<lparr>log := log st @ [Ignored_non_json_preload Not_json]\<rparr>)"
  by (simp add: preload_record_def)

lemma filtered_record_not_admitted:
  assumes "loads_decode (val msg) = Inr rec"
      and "read_fields w rec = Inr (chat_id, user_id, text)"
      and "in_watch w chat_id = Inr watched"
      and "\<not> watched \<or> \<not> isinstance_str text"
  shows "user_history (snd (process_record w st msg)) = user_history st"
    and "user_history (snd (preload_record w st msg)) = user_history st"
proof -
  show "user_history (snd (process_record w st msg)) = user_history st"
  proof (cases watched)
    case True
    with assms(4) have "\<not> isinstance_str text" by simp
    then show ?thesis
      by (simp add: process_record_not_str [OF assms(1-3)])
  next
    case False
    with assms(3) show ?thesis
      by (simp add: process_record_unwatched [OF assms(1,2)])
  qed
  show "user_history (snd (preload_record w st msg)) = user_history st"
    by (simp add: preload_record_filtered [OF assms])
qed

section \<open>The windows in a run of the program\<close>

lemma admit_all_append: "admit_all d (xs @ ys) = admit_all (admit_all d xs) ys"
  by (induction xs arbitrary: d) simp_all

lemma admitted_texts_append:
  "admitted_texts u (xs @ ys) = admitted_texts u xs @ admitted_texts u ys"
  by (induction u xs rule: admitted_texts.induct) (simp_all split: option.splits)

lemma snapshot_renew_history:
  "renew_history w st v s ts = Inr st1 \<Longrightarrow>
   snapshot st1 u =
     (if is_same_local_day w ts = Inr True \<and> u = v then deque_append (snapshot st u) s
      else snapshot st u)"
  by (auto simp: renew_history_def snapshot_history_append_cases split: sum.splits bool.splits)

lemma process_record_admission:
  "snapshot (snd (process_record w st msg)) u =
     (case admission w msg of
        Some (u', s) \<Rightarrow> if u' = u then deque_append (snapshot st u) s else snapshot st u
      | None \<Rightarrow> snapshot st u)"
proof (cases "loads_decode (val msg)")
  case (Inl e)
  then show ?thesis by (simp add: process_record_def admission_def)
next
  case rec: (Inr rec)
  show ?thesis
  proof (cases "read_fields w rec")
    case (Inl e)
    with rec show ?thesis by (simp add: process_record_def admission_def)
  next
    case (Inr f)
    then obtain chat_id user_id tx where rf: "read_fields w rec = Inr (chat_id, user_id, tx)"
      by (cases f) auto
    note nn = read_fields_not_None [OF rf]
    show ?thesis
    proof (cases "in_watch w chat_id")
      case (Inl e)
      with rec rf show ?thesis
        by (simp add: process_record_def admission_def split: pyval.splits)
    next
      case (Inr watched)
      show ?thesis
      proof (cases "watched \<and> isinstance_str tx")
        case False
        with rec rf Inr nn show ?thesis
          by (auto simp: process_record_def admission_def isinstance_str_def split: pyval.splits)
      next
        case True
        then obtain s where tx: "tx = PStr s" and watched: "watched"
          by (auto simp: isinstance_str_def split: pyval.splits)
        from Inr watched have iw: "in_watch w chat_id = Inr True" by simp
        from rf tx have rf': "read_fields w rec = Inr (chat_id, user_id, PStr s)" by simp
        have adm: "admission w msg =
            (if is_same_local_day w (timestamp msg) = Inr True then Some (user_id, s) else None)"
          using rec rf' iw nn by (simp add: admission_def)
        show ?thesis
        proof (cases "renew_history w st user_id s (timestamp msg)")
          case (Inl e)
          then have "is_same_local_day w (timestamp msg) \<noteq> Inr True"
            by (auto simp: renew_history_def)
          with Inl adm show ?thesis
            by (simp add: process_record_valid [OF rec rf' iw])
        next
          case (Inr st1)
          from snapshot_renew_history [OF Inr, of u] adm Inr show ?thesis
            by (simp add: process_record_valid [OF rec rf' iw] snapshot_trigger)
        qed
      qed
    qed
  qed
qed

lemma preload_record_admission:
  "snapshot (snd (preload_record w st msg)) u =
     (case admission w msg of
        Some (u', s) \<Rightarrow> if u' = u then deque_append (snapshot st u) s else snapshot st u
      | None \<Rightarrow> snapshot st u)"
proof (cases "loads_decode (val msg)")
  case (Inl e)
  then show ?thesis by (simp add: preload_record_def admission_def)
next
  case rec: (Inr rec)
  show ?thesis
  proof (cases "read_fields w rec")
    case (Inl e)
    with rec show ?thesis by (simp add: preload_record_def admission_def)
  next
    case (Inr f)
    then obtain chat_id user_id tx where rf: "read_fields w rec = Inr (chat_id, user_id, tx)"
      by (cases f) auto
    note nn = read_fields_not_None [OF rf]
    show ?thesis
    proof (cases "in_watch w chat_id")
      case (Inl e)
      with rec rf show ?thesis
        by (simp add: preload_record_def admission_def split: pyval.splits)
    next
      case (Inr watched)
      show ?thesis
      proof (cases "watched \<and> isinstance_str tx")
        case False
        then have f: "\<not> watched \<or> \<not> isinstance_str tx" by simp
        from False rec rf Inr have "admission w msg = None"
          by (auto simp: admission_def isinstance_str_def split: pyval.splits)
        then show ?thesis
          by (simp add: preload_record_filtered [OF rec rf Inr f])
      next
        case True
        then obtain s where tx: "tx = PStr s" and watched: "watched"
          by (auto simp: isinstance_str_def split: pyval.splits)
        from Inr watched have iw: "in_watch w chat_id = Inr True" by simp
        from rf tx have rf': "read_fields w rec = Inr (chat_id, user_id, PStr s)" by simp
        have adm: "admission w msg =
            (if is_same_local_day w (timestamp msg) = Inr True then Some (user_id, s) else None)"
          using rec rf' iw nn by (simp add: admission_def)
        have a: "\<And>l. snapshot (st\<lparr>user_history := history_append (user_history st) user_id s,
                                   log := l\<rparr>) u
                  = snapshot (st\<lparr>user_history := history_append (user_history st) user_id s\<rparr>) u"
          by (simp add: snapshot_def)
        show ?thesis
          using adm
          by (auto simp: preload_record_valid [OF rec rf' iw] a snapshot_history_append_cases
                   split: sum.splits bool.splits)
      qed
    qed
  qed
qed

lemma handled_all:
  "fst (preload_msgs st msgs) = None \<Longrightarrow> handled preload_record st msgs = msgs"
proof (induction msgs arbitrary: st)
  case Nil
  then show ?case by simp
next
  case (Cons m msgs)
  obtain w msg where m: "m = (w, msg)" by (cases m)
  obtain r st' where p: "preload_record w st msg = (r, st')"
    by (cases "preload_record w st msg")
  show ?case
  proof (cases r)
    case None
    with Cons.prems m p have "fst (preload_msgs st' msgs) = None" by simp
    from Cons.IH [OF this] None m p show ?thesis by simp
  next
    case (Some e)
    with Cons.prems m p show ?thesis by simp
  qed
qed

lemma consume_loop_window:
  "snapshot (snd (consume_loop st msgs)) u
     = admit_all (snapshot st u) (admitted_texts u (handled process_record st msgs))"
proof (induction msgs arbitrary: st)
  case Nil
  then show ?case by simp
next
  case (Cons m msgs)
  obtain w msg where m: "m = (w, msg)" by (cases m)
  obtain r st' where p: "process_record w st msg = (r, st')"
    by (cases "process_record w st msg")
  have step: "snapshot st' u = admit_all (snapshot st u) (admitted_texts u [(w, msg)])"
    using process_record_admission [of w st msg u] p
    by (auto split: option.splits)
  show ?case
  proof (cases r)
    case None
    have "snapshot (snd (consume_loop st' msgs)) u
            = admit_all (snapshot st u)
                (admitted_texts u ([(w, msg)] @ handled process_record st' msgs))"
      unfolding admitted_texts_append admit_all_append
      using Cons.IH [of st'] step by simp
    with None m p show ?thesis by simp
  next
    case (Some e)
    with m p step show ?thesis by simp
  qed
qed

lemma preload_msgs_window:
  "snapshot (snd (preload_msgs st msgs)) u
     = admit_all (snapshot st u) (admitted_texts u (handled preload_record st msgs))"
proof (induction msgs arbitrary: st)
  case Nil
  then show ?case by simp
next
  case (Cons m msgs)
  obtain w msg where m: "m = (w, msg)" by (cases m)
  obtain r st' where p: "preload_record w st msg = (r, st')"
    by (cases "preload_record w st msg")
  have step: "snapshot st' u = admit_all (snapshot st u) (admitted_texts u [(w, msg)])"
    using preload_record_admission [of w st msg u] p
    by (auto split: option.splits)
  show ?case
  proof (cases r)
    case None
    have "snapshot (snd (preload_msgs st' msgs)) u
            = admit_all (snapshot st u)
                (admitted_texts u ([(w, msg)] @ handled preload_record st' msgs))"
      unfolding admitted_texts_append admit_all_append
      using Cons.IH [of st'] step by simp
    with None m p show ?thesis by simp
  next
    case (Some e)
    with m p step show ?thesis by simp
  qed
qed

lemma preload_history_window:
  "snapshot (snd (preload_history st batches)) u
     = admit_all (snapshot st u) (admitted_texts u (preload_handled st batches))"
proof (induction batches arbitrary: st)
  case Nil
  then show ?case by simp
next
  case (Cons batch batches)
  show ?case
  proof (cases "\<exists>(tp, msgs) \<in> set batch. msgs \<noteq> []")
    case False
    then show ?thesis by simp
  next
    case True
    let ?ms = "concat (map snd batch)"
    obtain r st' where p: "preload_msgs st ?ms = (r, st')"
      by (cases "preload_msgs st ?ms")
    have w: "snapshot st' u = admit_all (snapshot st u) (admitted_texts u (handled preload_record st ?ms))"
      using preload_msgs_window [of st ?ms u] p by simp
    show ?thesis
    proof (cases r)
      case None
      with p have "handled preload_record st ?ms = ?ms"
        by (intro handled_all) simp
      with w have "snapshot st' u = admit_all (snapshot st u) (admitted_texts u ?ms)"
        by simp
      with Cons.IH [of st'] have
        "snapshot (snd (preload_history st' batches)) u
           = admit_all (snapshot st u) (admitted_texts u (?ms @ preload_handled st' batches))"
        by (simp add: admitted_texts_append admit_all_append)
      with None True p show ?thesis by simp
    next
      case (Some e)
      with True p w show ?thesis by simp
    qed
  qed
qed

lemma snapshot_init: "snapshot init_state u = []"
  by (simp add: snapshot_def init_state_def history_lookup_def)

lemma main_window:
  "snapshot (snd (main backlog live)) u = admit_all [] (admitted_texts u (main_handled backlog live))"
proof -
  obtain r st where p: "preload_history init_state backlog = (r, st)"
    by (cases "preload_history init_state backlog")
  have pre: "snapshot st u = admit_all [] (admitted_texts u (preload_handled init_state backlog))"
    using preload_history_window [of init_state backlog u] p by (simp add: snapshot_init)
  show ?thesis
  proof (cases r)
    case None
    let ?st = "st\<lparr>log := log st @ [Realtime_started]\<rparr>"
    have "snapshot (snd (consume_loop ?st live)) u
            = admit_all (snapshot st u) (admitted_texts u (handled process_record ?st live))"
      using consume_loop_window [of ?st live u] by simp
    with pre None p show ?thesis
      by (simp add: main_def main_handled_def consume_and_process_def admitted_texts_append
            admit_all_append)
  next
    case (Some e)
    with p pre show ?thesis
      by (simp add: main_def main_handled_def)
  qed
qed

section \<open>The example inputs, evaluated\<close>

lemma example_loads: "loads_decode (val (json_msg d ts)) = Inr (PDict d)"
  by (simp add: json_msg_def)

lemma example_timestamp: "timestamp (json_msg d ts) = Some ts"
  by (simp add: json_msg_def)

lemma example_read_fields:
  "read_fields w (PDict (example_record (PInt 42) tx))
     = Inr (PInt (- 4714765877), PStr (str_lit ''42''), tx)"
  by (simp add: read_fields_def example_record_def dict_get_def py_str_def str_text_def
        int_str_def digits.simps str_lit_def)


lemma example_in_watch: "in_watch w (PInt (- 4714765877)) = Inr True"
  by (simp add: in_watch_def WATCH_CHAT_IDS_def)

lemma mention_text_contains: "sublist BOT_MENTION mention_text"
  by (simp add: mention_text_def BOT_MENTION_codes str_lit_def sublist_code prefix_code)

lemma clean_mention_text: "clean mention_text = str_lit ''rate these''"
  by (subst clean_prefix) (simp_all add: mention_text_def BOT_MENTION_codes str_lit_def isspace_def)

lemma clean_hi: "clean (str_lit ''hi'') = str_lit ''hi''"
  by (rule clean_no_prefix) (simp add: BOT_MENTION_codes str_lit_def)

lemma clean_yo: "clean (str_lit ''yo'') = str_lit ''yo''"
  by (rule clean_no_prefix) (simp add: BOT_MENTION_codes str_lit_def)

lemma example_same_day: "is_same_local_day example_world (Some 86400000) = Inr True"
  and example_other_day: "is_same_local_day example_world (Some 0) = Inr False"
  and example_year_10000: "is_same_local_day example_world (Some year_10000) = Inl ValueError"
  by (simp_all add: is_same_local_day_def example_world_def year_10000_def
        datetime_min_ms_def datetime_max_ms_def)

lemma other_worlds_days:
  "is_same_local_day failing_world ts = is_same_local_day example_world ts"
  "is_same_local_day two_maps_world ts = is_same_local_day example_world ts"
  "is_same_local_day user_id_world ts = is_same_local_day example_world ts"
  by (simp_all add: is_same_local_day_def failing_world_def two_maps_world_def user_id_world_def
        Let_def split: option.splits)

lemma can_print_42:
  "can_print w (str_text (py_repr w) (PStr (str_lit ''42'')))"
  by (simp add: can_print_def str_text_def str_lit_def is_surrogate_def)


lemma init_state_fields:
  "sent init_state = []" "log init_state = []" "predict_calls init_state = []"
  by (simp_all add: init_state_def)

lemma deque_append_Nil: "deque_append [] x = [x]"
  by (simp add: deque_append_def maxlen_def)

lemma snapshot_one_text: "snapshot one_text_state (PStr (str_lit ''42'')) = [str_lit ''hi'']"
  by (simp add: snapshot_def one_text_state_def history_lookup_def)

lemma one_text_state_fields:
  "sent one_text_state = []" "log one_text_state = []" "predict_calls one_text_state = []"
  by (simp_all add: one_text_state_def init_state_def)

lemma snapshot_two_text:
  "snapshot two_text_state (PStr (str_lit ''42'')) = [str_lit ''hi'', str_lit ''yo'']"
  by (simp add: snapshot_def two_text_state_def history_lookup_def)

lemma two_text_state_fields:
  "sent two_text_state = []" "log two_text_state = []" "predict_calls two_text_state = []"
  by (simp_all add: two_text_state_def init_state_def)

lemma example_admission:
  "admission example_world (json_msg (example_record (PInt 42) (PStr s)) 86400000)
     = Some (PStr (str_lit ''42''), s)"
  by (simp add: admission_def example_loads example_read_fields example_in_watch
        example_timestamp example_same_day is_None_def)

lemma plain_msg_continues:
  "\<not> sublist BOT_MENTION s \<Longrightarrow>
   fst (process_record example_world st (json_msg (example_record (PInt 42) (PStr s)) 86400000))
     = None"
  by (simp add: process_record_valid [OF example_loads example_read_fields example_in_watch]
        example_timestamp renew_history_same_day [OF example_same_day])

lemma handled_continues:
  "(\<And>st w msg. (w, msg) \<in> set msgs \<Longrightarrow> fst (step w st msg) = None) \<Longrightarrow>
   handled step st (msgs @ [x]) = msgs @ [x]"
proof (induction msgs arbitrary: st)
  case Nil
  then show ?case by (cases x) (simp split: prod.splits option.splits)
next
  case (Cons m msgs)
  obtain w msg where m: "m = (w, msg)" by (cases m)
  obtain r st' where p: "step w st msg = (r, st')"
    by (cases "step w st msg")
  have "fst (step w st msg) = None"
    using Cons.prems [of w msg st] m by simp
  with p have r: "r = None" by simp
  have "handled step st' (msgs @ [x]) = msgs @ [x]"
    using Cons.prems by (intro Cons.IH) simp
  with m p r show ?case by simp
qed

lemma plain_no_mention: "\<not> sublist BOT_MENTION [c]"
  by (simp add: BOT_MENTION_codes sublist_code prefix_code)

lemma scenario_handled: "main_handled [] scenario = scenario"
proof -
  have "\<And>st w msg. (w, msg) \<in> set (map plain_msg [0, 1, 2, 3, 4, 5, 6, 7, 8, 9, 10]) \<Longrightarrow>
          fst (process_record w st msg) = None"
    by (auto simp: plain_msg_def plain_no_mention plain_msg_continues)
  then show ?thesis
    unfolding main_handled_def scenario_def
    by (simp only: preload_history.simps preload_handled.simps prod.case append_Nil
          handled_continues option.case)
qed

lemma scenario_admitted:
  "admitted_texts (PStr (str_lit ''42'')) scenario
     = [[97], [98], [99], [100], [101], [102], [103], [104], [105], [106], [107], mention_text]"
  by (simp add: scenario_def plain_msg_def example_admission)

lemma renew_history_fields:
  assumes "renew_history w st u s ts = Inr st1"
  shows "sent st1 = sent st" and "log st1 = log st" and "predict_calls st1 = predict_calls st"
  using assms by (auto simp: renew_history_def split: sum.splits bool.splits)

lemma process_record_calls_prefix:
  "prefix (predict_calls st) (predict_calls (snd (process_record w st msg)))"
proof -
  have r: "\<And>u s st1. renew_history w st u s (timestamp msg) = Inr st1 \<Longrightarrow>
             predict_calls st1 = predict_calls st"
    by (rule renew_history_fields)
  show ?thesis
    by (auto simp: process_record_def trigger_calls r
             split: sum.splits prod.splits pyval.splits)
qed

lemma consume_loop_calls_prefix:
  "prefix (predict_calls st) (predict_calls (snd (consume_loop st msgs)))"
proof (induction msgs arbitrary: st)
  case Nil
  then show ?case by simp
next
  case (Cons m msgs)
  obtain w msg where m: "m = (w, msg)" by (cases m)
  obtain r st' where p: "process_record w st msg = (r, st')"
    by (cases "process_record w st msg")
  have pre: "prefix (predict_calls st) (predict_calls st')"
    using process_record_calls_prefix [of st w msg] p by simp
  show ?case
  proof (cases r)
    case None
    with Cons.IH [of st'] pre m p show ?thesis
      by (auto intro: prefix_order.trans)
  next
    case (Some e)
    with pre m p show ?thesis by simp
  qed
qed

section \<open>Capacity and eviction in a run\<close>

text \<open>
  Claim C3. In every run of the backfill and the live loop, whether it ends with an
  exception or not, the window of a user holds the texts that the run has admitted for
  that user, in the order of admission, cut down to the last 10: it never has more than
  10 texts, and once more than 10 have been admitted the oldest are gone.
\<close>

theorem window_capacity_fifo:
  "snapshot (snd (main backlog live)) u
     = drop (length (admitted_texts u (main_handled backlog live)) - 10)
         (admitted_texts u (main_handled backlog live))
   \<and> length (snapshot (snd (main backlog live)) u) \<le> 10"
proof -
  let ?adm = "admitted_texts u (main_handled backlog live)"
  have "admit_all [] ?adm = drop (length ([] @ ?adm) - maxlen) ([] @ ?adm)"
    by (rule admit_all_drop) simp
  then have "snapshot (snd (main backlog live)) u = drop (length ?adm - 10) ?adm"
    by (simp add: main_window maxlen_def)
  then show ?thesis by simp
qed

theorem window_capacity_fifo_witness:
  "snapshot (snd (main [] scenario)) (PStr (str_lit ''42''))
     = [[99], [100], [101], [102], [103], [104], [105], [106], [107], mention_text]"
  using window_capacity_fifo [of "[]" scenario "PStr (str_lit ''42'')", THEN conjunct1]
  by (simp add: scenario_handled scenario_admitted)

section \<open>All-or-nothing aggregation\<close>

text \<open>
  Claim C2. Take a trigger that gets to its scoring calls: a watched record with a
  string text that contains the marker, whose timestamp \<open>datetime\<close> can hold and whose
  trigger line can be printed. One call is made per text of the window. If one of
  these calls fails, nothing is handed to the producer for this trigger, whatever the
  other calls return, "prediction failed" is printed after the trigger line, and the
  loop goes on with the next record.
\<close>

theorem failed_call_abandons_trigger:
  assumes "loads_decode (val msg) = Inr rec"
      and "read_fields w rec = Inr (chat_id, user_id, PStr s)"
      and "in_watch w chat_id = Inr True"
      and "sublist BOT_MENTION s"
      and "renew_history w st user_id s (timestamp msg) = Inr st1"
      and "can_print w (str_text (py_repr w) user_id)"
      and "i < length (snapshot st1 user_id)"
      and "call_predict w i (clean (snapshot st1 user_id ! i)) = Inl e"
  shows "fst (process_record w st msg) = None
       \<and> sent (snd (process_record w st msg)) = sent st
       \<and> log (snd (process_record w st msg)) =
           log st @ [Triggered user_id (map clean (snapshot st1 user_id)), Prediction_failed]
       \<and> predict_calls (snd (process_record w st msg)) =
           predict_calls st @ map clean (snapshot st1 user_id)
       \<and> consume_loop st ((w, msg) # rest) = consume_loop (snd (process_record w st msg)) rest"
proof -
  let ?cb = "map clean (snapshot st1 user_id)"
  have "i < length ?cb" and "call_predict w i (?cb ! i) = Inl e"
    using assms(7,8) by simp_all
  then have "gather (map (\<lambda>(i, t). call_predict w i t) (enumerate 0 ?cb)) = None"
    by (rule gather_failed_call)
  with assms(6) have "trigger w st1 user_id =
      (None, st1\<lparr>user_history := fst (history_lookup (user_history st1) user_id),
                 log := log st1 @ [Triggered user_id ?cb, Prediction_failed],
                 predict_calls := predict_calls st1 @ ?cb\<rparr>)"
    by (rule trigger_failed)
  then have pr: "process_record w st msg =
      (None, st1\<lparr>user_history := fst (history_lookup (user_history st1) user_id),
                 log := log st1 @ [Triggered user_id ?cb, Prediction_failed],
                 predict_calls := predict_calls st1 @ ?cb\<rparr>)"
    using process_record_valid [OF assms(1-3)] assms(4,5) by simp
  show ?thesis
    by (simp add: pr renew_history_fields [OF assms(5)])
qed

theorem failed_call_abandons_trigger_witness:
  "call_predict failing_world 0 (str_lit ''hi'') = Inr (PDict [(str_lit ''pos'', PInt 1)])
   \<and> call_predict failing_world 1 (str_lit ''rate these'') = Inl ClientError
   \<and> fst (process_record failing_world one_text_state
          (json_msg (example_record (PInt 42) (PStr mention_text)) 86400000)) = None
   \<and> sent (snd (process_record failing_world one_text_state
          (json_msg (example_record (PInt 42) (PStr mention_text)) 86400000))) = []
   \<and> log (snd (process_record failing_world one_text_state
          (json_msg (example_record (PInt 42) (PStr mention_text)) 86400000)))
       = [Triggered (PStr (str_lit ''42'')) [str_lit ''hi'', str_lit ''rate these''],
          Prediction_failed]"
proof -
  let ?msg = "json_msg (example_record (PInt 42) (PStr mention_text)) 86400000"
  let ?u = "PStr (str_lit ''42'')"
  let ?st1 = "one_text_state\<lparr>user_history :=
                history_append (user_history one_text_state) ?u mention_text\<rparr>"
  have rh: "renew_history failing_world one_text_state ?u mention_text (timestamp ?msg) = Inr ?st1"
    by (simp add: example_timestamp renew_history_same_day other_worlds_days example_same_day)
  have sn: "snapshot ?st1 ?u = [str_lit ''hi'', mention_text]"
    by (simp add: snapshot_history_append_cases snapshot_one_text deque_append_def maxlen_def)
  have c0: "call_predict failing_world 0 (str_lit ''hi'') = Inr (PDict [(str_lit ''pos'', PInt 1)])"
    by (simp add: call_predict_def translate_to_english_def can_print_def str_text_def
          failing_world_def example_world_def)
  have c1: "call_predict failing_world 1 (str_lit ''rate these'') = Inl ClientError"
    by (simp add: call_predict_def translate_to_english_def can_print_def str_text_def
          failing_world_def example_world_def)
  have h7: "1 < length (snapshot ?st1 ?u)"
    by (simp add: sn)
  have h8: "call_predict failing_world 1 (clean (snapshot ?st1 ?u ! 1)) = Inl ClientError"
    using c1 by (simp add: sn clean_mention_text)
  note t = failed_call_abandons_trigger
         [OF example_loads example_read_fields example_in_watch mention_text_contains rh
             can_print_42 h7 h8]
  have "fst (process_record failing_world one_text_state ?msg) = None"
    and "sent (snd (process_record failing_world one_text_state ?msg)) = []"
    and "log (snd (process_record failing_world one_text_state ?msg))
       = [Triggered (PStr (str_lit ''42'')) [str_lit ''hi'', str_lit ''rate these''],
          Prediction_failed]"
    using t by (simp_all add: sn clean_hi clean_mention_text one_text_state_fields)
  with c0 c1 show ?thesis by (intro conjI)
qed

lemma two_maps_gather:
  "gather (map (\<lambda>(i, t). call_predict two_maps_world i t)
             (enumerate 0 (map clean (snapshot two_text_state (PStr (str_lit ''42''))))))
     = Some [PDict [(str_lit ''pos'', PInt 1), (str_lit ''neu'', PInt 2)],
             PDict [(str_lit ''pos'', PInt 3), (str_lit ''energy'', PInt 5)]]"
  by (simp add: snapshot_two_text clean_hi clean_yo call_predict_def translate_to_english_def
        can_print_def str_text_def example_world_def two_maps_world_def)

lemma two_maps_aggregate:
  "aggregate w [] [PDict [(str_lit ''pos'', PInt 1), (str_lit ''neu'', PInt 2)],
                   PDict [(str_lit ''pos'', PInt 3), (str_lit ''energy'', PInt 5)]]
     = Inr [(str_lit ''pos'', NInt 4), (str_lit ''neu'', NInt 2), (str_lit ''energy'', NInt 5)]"
  by (simp add: str_lit_def dict_get_def)

lemma user_id_gather:
  "gather (map (\<lambda>(i, t). call_predict user_id_world i t)
             (enumerate 0 (map clean (snapshot one_text_state (PStr (str_lit ''42''))))))
     = Some [PDict [(str_lit ''user_id'', PInt 5)]]"
  by (simp add: snapshot_one_text clean_hi call_predict_def translate_to_english_def
        can_print_def str_text_def example_world_def user_id_world_def)

lemma example_int_str_ok: "int_str_ok example_world 4" "int_str_ok example_world 2"
  "int_str_ok example_world 5"
  by (simp_all add: int_str_ok_def example_world_def digits.simps)

lemma other_worlds_int_str:
  "int_str_ok two_maps_world i = int_str_ok example_world i"
  "int_str_ok user_id_world i = int_str_ok example_world i"
  by (simp_all add: int_str_ok_def two_maps_world_def user_id_world_def)

lemma two_maps_dumps:
  "dumps_ok two_maps_world
     (with_user_id [(str_lit ''pos'', NInt 4), (str_lit ''neu'', NInt 2), (str_lit ''energy'', NInt 5)]
        (PStr (str_lit ''42'')))"
  by (simp add: dumps_ok_def with_user_id_def other_worlds_int_str example_int_str_ok)

lemma user_id_dumps:
  "dumps_ok user_id_world (with_user_id [(str_lit ''user_id'', NInt 5)] (PStr (str_lit ''42'')))"
  by (simp add: dumps_ok_def with_user_id_def other_worlds_int_str example_int_str_ok)


lemma user_id_aggregate:
  "aggregate w [] [PDict [(str_lit ''user_id'', PInt 5)]] = Inr [(str_lit ''user_id'', NInt 5)]"
  by (simp add: dict_get_def)

section \<open>The aggregate\<close>

text \<open>
  The claim C5 as it is written fails when a score map has a field called \<open>user_id\<close>:
  the assignment \<open>agg["user_id"] = user_id\<close> replaces the sum of that field by the
  user id. With one buffered text and the answer \<open>{"user_id": 5}\<close> the published dict
  is \<open>{"user_id": "42"}\<close>.
\<close>

theorem user_id_field_overwritten:
  "sent (snd (trigger user_id_world one_text_state (PStr (str_lit ''42''))))
     = [[(str_lit ''user_id'', PStr (str_lit ''42''))]]
   \<and> map_of (with_user_id [(str_lit ''user_id'', NInt 5)] (PStr (str_lit ''42'')))
        (str_lit ''user_id'') \<noteq> Some (PInt 5)"
  by (simp add: trigger_succeeded [OF can_print_42 user_id_gather user_id_aggregate user_id_dumps]
        one_text_state_fields with_user_id_def)

text \<open>
  Claim C5, amended. Take a trigger whose scoring calls all return and whose sums are
  built and written as JSON without an exception. One dict is handed to the producer.
  It maps \<open>user_id\<close> to the triggering user id, also when a score map has a field of that
  name. Every other
  field name is in the dict exactly when it occurs in a returned score map, and is
  mapped to what Python's \<open>+\<close> gives when that field's values are added from the left, in
  the order of the score maps and starting from 0, a score map without the field adding
  nothing; for integer values this is their sum. The score maps \<open>{"pos":1,"neu":2}\<close> and
  \<open>{"pos":3,"energy":5}\<close> give \<open>{"pos":4,"neu":2,"energy":5}\<close>.
\<close>

theorem aggregate_sums_fields:
  assumes "can_print w (str_text (py_repr w) u)"
      and "gather (map (\<lambda>(i, t). call_predict w i t) (enumerate 0 (map clean (snapshot st u))))
             = Some results"
      and "aggregate w [] results = Inr sums"
      and "dumps_ok w (with_user_id sums u)"
      and "dicts_wf results"
      and "k \<noteq> str_lit ''user_id''"
  shows "sent (snd (trigger w st u)) = sent st @ [with_user_id sums u]
       \<and> map_of (with_user_id sums u) (str_lit ''user_id'') = Some u
       \<and> (field_values k results = [] \<longrightarrow> map_of (with_user_id sums u) k = None)
       \<and> (field_values k results \<noteq> [] \<longrightarrow>
            (\<exists>t. field_sum w (NInt 0) (field_values k results) = Inr t
                 \<and> map_of (with_user_id sums u) k = Some (num_val t)))
       \<and> (\<forall>xs. field_values k results = map PInt xs \<and> xs \<noteq> [] \<longrightarrow>
            map_of (with_user_id sums u) k = Some (PInt (sum_list xs)))
       \<and> aggregate w [] [PDict [(str_lit ''pos'', PInt 1), (str_lit ''neu'', PInt 2)],
                          PDict [(str_lit ''pos'', PInt 3), (str_lit ''energy'', PInt 5)]]
           = Inr [(str_lit ''pos'', NInt 4), (str_lit ''neu'', NInt 2),
                  (str_lit ''energy'', NInt 5)]"
proof -
  note f = aggregate_field [OF assms(5,3), of k]
  have m: "map_of (with_user_id sums u) k = map_option num_val (map_of sums k)"
    using assms(6) by (simp add: map_of_with_user_id)
  have a: "sent (snd (trigger w st u)) = sent st @ [with_user_id sums u]"
    by (simp add: trigger_succeeded [OF assms(1-4)])
  have b: "map_of (with_user_id sums u) (str_lit ''user_id'') = Some u"
    by (simp add: map_of_with_user_id)
  have c: "field_values k results = [] \<longrightarrow> map_of (with_user_id sums u) k = None"
    using f m by simp
  have d: "field_values k results \<noteq> [] \<longrightarrow>
            (\<exists>t. field_sum w (NInt 0) (field_values k results) = Inr t
                 \<and> map_of (with_user_id sums u) k = Some (num_val t))"
    using f m by auto
  have e: "\<forall>xs. field_values k results = map PInt xs \<and> xs \<noteq> [] \<longrightarrow>
            map_of (with_user_id sums u) k = Some (PInt (sum_list xs))"
  proof (intro allI impI)
    fix xs assume x: "field_values k results = map PInt xs \<and> xs \<noteq> []"
    then have "field_values k results \<noteq> []" by auto
    with d obtain t where t: "field_sum w (NInt 0) (field_values k results) = Inr t"
      and mt: "map_of (with_user_id sums u) k = Some (num_val t)"
      by blast
    from t x have "t = NInt (sum_list xs)"
      by (simp add: field_sum_ints)
    with mt show "map_of (with_user_id sums u) k = Some (PInt (sum_list xs))"
      by simp
  qed
  from a b c d e two_maps_aggregate [of w] show ?thesis
    by (intro conjI)
qed

theorem aggregate_sums_fields_witness:
  "sent (snd (trigger two_maps_world two_text_state (PStr (str_lit ''42''))))
     = [[(str_lit ''pos'', PInt 4), (str_lit ''neu'', PInt 2), (str_lit ''energy'', PInt 5),
         (str_lit ''user_id'', PStr (str_lit ''42''))]]"
proof -
  have wf: "dicts_wf [PDict [(str_lit ''pos'', PInt 1), (str_lit ''neu'', PInt 2)],
                      PDict [(str_lit ''pos'', PInt 3), (str_lit ''energy'', PInt 5)]]"
    by (simp add: str_lit_def)
  have k: "str_lit ''pos'' \<noteq> str_lit ''user_id''"
    by (simp add: str_lit_def)
  from aggregate_sums_fields [OF can_print_42 two_maps_gather two_maps_aggregate two_maps_dumps
           wf k, THEN conjunct1]
  show ?thesis
    by (simp add: two_text_state_fields with_user_id_def str_lit_def)
qed

section \<open>Triggering and admission\<close>







text \<open>
  Claim C7. For a watched record of today with a string text that contains the marker,
  admission comes first: the pipeline is invoked on the window with the triggering text
  appended, so its snapshot has that text as its newest element. When the trigger line
  can be printed, the line and the scoring calls are made from that snapshot, and the
  records processed afterwards leave these calls as they are, also when they admit more
  texts to the window.
\<close>

theorem snapshot_includes_triggering_message:
  assumes "loads_decode (val msg) = Inr rec"
      and "read_fields w rec = Inr (chat_id, user_id, PStr s)"
      and "in_watch w chat_id = Inr True"
      and "sublist BOT_MENTION s"
      and "is_same_local_day w (timestamp msg) = Inr True"
      and "st1 = st\<lparr>user_history := history_append (user_history st) user_id s\<rparr>"
  shows "process_record w st msg = trigger w st1 user_id
       \<and> snapshot st1 user_id = deque_append (snapshot st user_id) s
       \<and> last (snapshot st1 user_id) = s
       \<and> predict_calls (snd (process_record w st msg)) =
           predict_calls st @ (if can_print w (str_text (py_repr w) user_id)
                                then map clean (deque_append (snapshot st user_id) s) else [])
       \<and> take (Suc (length (log st))) (log (snd (process_record w st msg))) =
           log st @ (if can_print w (str_text (py_repr w) user_id)
                     then [Triggered user_id (map clean (deque_append (snapshot st user_id) s))]
                     else [])
       \<and> prefix (predict_calls (snd (process_record w st msg)))
                 (predict_calls (snd (consume_loop (snd (process_record w st msg)) rest)))"
proof -
  have rh: "renew_history w st user_id s (timestamp msg) = Inr st1"
    using assms(5,6) by (simp add: renew_history_def)
  have sn: "snapshot st1 user_id = deque_append (snapshot st user_id) s"
    using assms(6) by (simp add: snapshot_history_append_cases)
  have pr: "process_record w st msg = trigger w st1 user_id"
    using process_record_valid [OF assms(1-3)] assms(4) rh by simp
  have f: "predict_calls st1 = predict_calls st" "log st1 = log st"
    using renew_history_fields [OF rh] by simp_all
  have calls: "predict_calls (snd (process_record w st msg)) =
           predict_calls st @ (if can_print w (str_text (py_repr w) user_id)
                                then map clean (deque_append (snapshot st user_id) s) else [])"
    using trigger_calls [of w st1 user_id] pr f sn by simp
  have lg: "take (Suc (length (log st))) (log (snd (process_record w st msg))) =
           log st @ (if can_print w (str_text (py_repr w) user_id)
                     then [Triggered user_id (map clean (deque_append (snapshot st user_id) s))]
                     else [])"
    using trigger_log [of st1 w user_id] pr f sn by simp
  have later: "prefix (predict_calls (snd (process_record w st msg)))
                 (predict_calls (snd (consume_loop (snd (process_record w st msg)) rest)))"
    by (rule consume_loop_calls_prefix)
  show ?thesis
    using pr sn calls lg later by (simp add: last_deque_append)
qed

theorem snapshot_includes_triggering_message_witness:
  "is_same_local_day example_world
        (timestamp (json_msg (example_record (PInt 42) (PStr mention_text)) 86400000)) = Inr True
   \<and> snapshot (one_text_state\<lparr>user_history :=
          history_append (user_history one_text_state) (PStr (str_lit ''42'')) mention_text\<rparr>)
        (PStr (str_lit ''42''))
       = [str_lit ''hi'', mention_text]
   \<and> predict_calls (snd (process_record example_world one_text_state
        (json_msg (example_record (PInt 42) (PStr mention_text)) 86400000)))
       = [str_lit ''hi'', str_lit ''rate these'']
   \<and> prefix [str_lit ''hi'', str_lit ''rate these'']
        (predict_calls (snd (consume_loop
           (snd (process_record example_world one_text_state
              (json_msg (example_record (PInt 42) (PStr mention_text)) 86400000)))
           [plain_msg 0])))
   \<and> snapshot (snd (consume_loop
           (snd (process_record example_world one_text_state
              (json_msg (example_record (PInt 42) (PStr mention_text)) 86400000)))
           [plain_msg 0])) (PStr (str_lit ''42''))
       = [str_lit ''hi'', mention_text, [97]]"
proof -
  let ?msg = "json_msg (example_record (PInt 42) (PStr mention_text)) 86400000"
  let ?u = "PStr (str_lit ''42'')"
  let ?st1 = "one_text_state\<lparr>user_history :=
                history_append (user_history one_text_state) ?u mention_text\<rparr>"
  have day: "is_same_local_day example_world (timestamp ?msg) = Inr True"
    by (simp add: example_timestamp example_same_day)
  have da: "deque_append [str_lit ''hi''] mention_text = [str_lit ''hi'', mention_text]"
    by (simp add: deque_append_def maxlen_def)
  note t = snapshot_includes_triggering_message
         [OF example_loads example_read_fields example_in_watch mention_text_contains day refl,
          where st = one_text_state and rest = "[plain_msg 0]"]
  have sn: "snapshot ?st1 ?u = [str_lit ''hi'', mention_text]"
    using t [THEN conjunct2, THEN conjunct1] by (simp add: snapshot_one_text da)
  have calls: "predict_calls (snd (process_record example_world one_text_state ?msg))
          = [str_lit ''hi'', str_lit ''rate these'']"
    using t [THEN conjunct2, THEN conjunct2, THEN conjunct2, THEN conjunct1]
    by (simp add: one_text_state_fields snapshot_one_text clean_hi clean_mention_text da
          can_print_42)
  have later: "prefix [str_lit ''hi'', str_lit ''rate these'']
        (predict_calls (snd (consume_loop
           (snd (process_record example_world one_text_state ?msg)) [plain_msg 0])))"
    using t [THEN conjunct2, THEN conjunct2, THEN conjunct2, THEN conjunct2, THEN conjunct2]
    by (simp only: calls)
  have s1: "snapshot (snd (process_record example_world one_text_state ?msg)) ?u
              = [str_lit ''hi'', mention_text]"
    by (simp add: process_record_admission example_admission snapshot_one_text da)
  have h: "\<And>st'. handled process_record st' [plain_msg 0] = [plain_msg 0]"
    by (simp add: plain_msg_def split: prod.splits option.splits)
  have a: "admitted_texts ?u [plain_msg 0] = [[97]]"
    by (simp add: plain_msg_def example_admission)
  have "snapshot (snd (consume_loop
           (snd (process_record example_world one_text_state ?msg)) [plain_msg 0])) ?u
       = [str_lit ''hi'', mention_text, [97]]"
    unfolding consume_loop_window h a s1
    by (simp add: deque_append_def maxlen_def)
  with day sn calls later show ?thesis
    by (intro conjI)
qed

lemma no_user_read_fields:
  "read_fields w (PDict no_user_record)
     = Inr (PInt (- 4714765877), PStr (str_lit ''None''), PStr (str_lit ''hi''))"
  by (simp add: read_fields_def no_user_record_def dict_get_def py_str_def str_text_def
        str_lit_def)

lemma no_message_read_fields:
  "read_fields w (PDict no_message_record)
     = Inr (PInt (- 4714765877), PStr (str_lit ''42''), PStr [])"
  by (simp add: read_fields_def no_message_record_def dict_get_def py_str_def str_text_def
        int_str_def digits.simps str_lit_def)

lemma history_append_init:
  "history_append (user_history init_state) u s u = Some [s]"
  by (simp add: history_append_def history_lookup_def init_state_def deque_append_Nil)

section \<open>The admission filter\<close>

text \<open>
  Claim C1 says that a record whose chat is not watched, whose \<open>user_id\<close> is missing or
  whose message is not a string is never admitted. For an unwatched chat and for a
  message that is not a string this is \<open>filtered_record_not_admitted\<close>. The test for a
  missing \<open>user_id\<close> never fires, because the value has gone through \<open>str\<close> before it
  is compared with \<open>None\<close>: the string text of a watched record of today without
  \<open>user_id\<close> is appended to the window of the user \<open>"None"\<close>, in the live loop and in
  the backfill.
\<close>

theorem missing_user_id_admitted:
  assumes "val msg = Json (PDict d)"
      and "map_of d (str_lit ''user_id'') = None"
      and "in_watch w (dict_get d (str_lit ''chat_id'') PNone) = Inr True"
      and "dict_get d (str_lit ''message'') (PStr []) = PStr s"
      and "is_same_local_day w (timestamp msg) = Inr True"
  shows "snapshot (snd (process_record w st msg)) (PStr (str_lit ''None''))
           = deque_append (snapshot st (PStr (str_lit ''None''))) s
       \<and> snapshot (snd (preload_record w st msg)) (PStr (str_lit ''None''))
           = deque_append (snapshot st (PStr (str_lit ''None''))) s"
proof -
  have ld: "loads_decode (val msg) = Inr (PDict d)"
    using assms(1) by simp
  have rf: "read_fields w (PDict d)
              = Inr (dict_get d (str_lit ''chat_id'') PNone, PStr (str_lit ''None''), PStr s)"
    using assms(2,4) by (simp add: read_fields_def dict_get_def py_str_def str_text_def)
  have "admission w msg = Some (PStr (str_lit ''None''), s)"
    using ld rf assms(3,5) by (simp add: admission_def is_None_def)
  then show ?thesis
    by (simp add: process_record_admission preload_record_admission)
qed

theorem missing_user_id_admitted_witness:
  "snapshot (snd (process_record example_world init_state (json_msg no_user_record 86400000)))
     (PStr (str_lit ''None'')) = [str_lit ''hi'']
   \<and> snapshot (snd (preload_record example_world init_state (json_msg no_user_record 86400000)))
     (PStr (str_lit ''None'')) = [str_lit ''hi'']"
proof -
  have v: "val (json_msg no_user_record 86400000) = Json (PDict no_user_record)"
    by (simp add: json_msg_def)
  have u: "map_of no_user_record (str_lit ''user_id'') = None"
    by (simp add: no_user_record_def str_lit_def)
  have c: "in_watch example_world (dict_get no_user_record (str_lit ''chat_id'') PNone) = Inr True"
    by (simp add: no_user_record_def dict_get_def example_in_watch)
  have m: "dict_get no_user_record (str_lit ''message'') (PStr []) = PStr (str_lit ''hi'')"
    by (simp add: no_user_record_def dict_get_def str_lit_def)
  have day: "is_same_local_day example_world (timestamp (json_msg no_user_record 86400000))
               = Inr True"
    by (simp add: example_timestamp example_same_day)
  from missing_user_id_admitted [OF v u c m day, of init_state]
  show ?thesis
    by (simp add: snapshot_init deque_append_Nil)
qed

text \<open>
  The claim C8 as it is written fails: a watched record of today without a \<open>message\<close>
  field is admitted, with the empty text, in both loops, and the live loop prints nothing
  for it.
\<close>

theorem missing_message_admitted:
  "user_history (snd (process_record example_world init_state (json_msg no_message_record 86400000)))
     (PStr (str_lit ''42'')) = Some [[]]
   \<and> log (snd (process_record example_world init_state (json_msg no_message_record 86400000))) = []
   \<and> user_history (snd (preload_record example_world init_state (json_msg no_message_record 86400000)))
     (PStr (str_lit ''42'')) = Some [[]]"
proof (intro conjI)
  show "user_history (snd (process_record example_world init_state (json_msg no_message_record 86400000)))
     (PStr (str_lit ''42'')) = Some [[]]"
    by (simp add: process_record_valid [OF example_loads no_message_read_fields example_in_watch]
          BOT_MENTION_not_in_empty example_timestamp renew_history_same_day [OF example_same_day]
          history_append_init)
  show "log (snd (process_record example_world init_state (json_msg no_message_record 86400000))) = []"
    by (simp add: process_record_valid [OF example_loads no_message_read_fields example_in_watch]
          BOT_MENTION_not_in_empty example_timestamp renew_history_same_day [OF example_same_day]
          init_state_fields)
  show "user_history (snd (preload_record example_world init_state (json_msg no_message_record 86400000)))
     (PStr (str_lit ''42'')) = Some [[]]"
    by (simp add: preload_record_valid [OF example_loads no_message_read_fields example_in_watch]
          example_timestamp example_same_day history_append_init can_print_42)
qed

text \<open>
  Claim C8, amended. Take a record that parses to a JSON object without a \<open>message\<close>
  field, whose \<open>chat_id\<close> can be looked up in the watched set and, when the chat is
  watched, whose timestamp \<open>datetime\<close> can hold. Its text is the empty string, and it
  never triggers the pipeline. The live loop appends the empty text to the user's window
  when the chat is watched and the timestamp is of today, changes nothing otherwise,
  prints nothing and goes on with the next record. The backfill appends in the same
  case; it then prints that the record was preloaded and goes on, or, when the line with
  the user id cannot be printed, ends with \<open>UnicodeEncodeError\<close>; in the other case it
  prints that the record was ignored and goes on.
\<close>

theorem missing_message_is_empty_text:
  assumes "val msg = Json (PDict d)"
      and "map_of d (str_lit ''message'') = None"
      and "in_watch w (dict_get d (str_lit ''chat_id'') PNone) = Inr watched"
      and "watched \<longrightarrow> is_same_local_day w (timestamp msg) = Inr today"
      and "u = py_str (py_repr w) (dict_get d (str_lit ''user_id'') PNone)"
  shows "process_record w st msg =
           (None, if watched \<and> today
                  then st\<lparr>user_history := history_append (user_history st) u []\<rparr>
                  else st)
       \<and> preload_record w st msg =
           (if watched \<and> today
            then if can_print w (str_text (py_repr w) u)
                 then (None, st\<lparr>user_history := history_append (user_history st) u [],
                                log := log st @ [Preloaded u []]\<rparr>)
                 else (Some UnicodeEncodeError,
                       st\<lparr>user_history := history_append (user_history st) u []\<rparr>)
            else (None, st\<lparr>log := log st @ [Ignore_invalid (PDict d)]\<rparr>))"
proof -
  have ld: "loads_decode (val msg) = Inr (PDict d)"
    using assms(1) by simp
  have rf: "read_fields w (PDict d) = Inr (dict_get d (str_lit ''chat_id'') PNone, u, PStr [])"
    using assms(2,5) by (simp add: read_fields_def dict_get_def)
  show ?thesis
  proof (cases watched)
    case True
    with assms(3,4) have iw: "in_watch w (dict_get d (str_lit ''chat_id'') PNone) = Inr True"
      and day: "is_same_local_day w (timestamp msg) = Inr today"
      by simp_all
    from True day show ?thesis
      by (simp add: process_record_valid [OF ld rf iw] preload_record_valid [OF ld rf iw]
            BOT_MENTION_not_in_empty renew_history_def)
  next
    case False
    with assms(3) have iw: "in_watch w (dict_get d (str_lit ''chat_id'') PNone) = Inr False"
      by simp
    have f: "\<not> False \<or> \<not> isinstance_str (PStr [])" by simp
    from False show ?thesis
      by (simp add: process_record_unwatched [OF ld rf iw] preload_record_filtered [OF ld rf iw f])
  qed
qed

theorem missing_message_is_empty_text_witness:
  "process_record example_world init_state (json_msg no_message_record 0) = (None, init_state)
   \<and> preload_record example_world init_state (json_msg no_message_record 0)
       = (None, init_state\<lparr>log := [Ignore_invalid (PDict no_message_record)]\<rparr>)"
proof -
  have v: "val (json_msg no_message_record 0) = Json (PDict no_message_record)"
    by (simp add: json_msg_def)
  have m: "map_of no_message_record (str_lit ''message'') = None"
    by (simp add: no_message_record_def str_lit_def)
  have c: "in_watch example_world (dict_get no_message_record (str_lit ''chat_id'') PNone)
             = Inr True"
    by (simp add: no_message_record_def dict_get_def example_in_watch)
  have day: "True \<longrightarrow> is_same_local_day example_world (timestamp (json_msg no_message_record 0))
               = Inr False"
    by (simp add: example_timestamp example_other_day)
  from missing_message_is_empty_text [OF v m c day refl, of init_state]
  show ?thesis
    by (simp add: init_state_fields)
qed

section \<open>Payloads that cannot be parsed\<close>

text \<open>
  Claim C9 says that a payload that cannot be parsed is skipped and printed and that the
  loop goes on. For text that is not JSON this is \<open>process_record_not_json\<close> and
  \<open>preload_record_not_json\<close>. Bytes that are not UTF-8 make \<open>decode\<close> raise
  \<open>UnicodeDecodeError\<close>, which the handler for \<open>JSONDecodeError\<close> and \<open>TypeError\<close> does
  not catch: the exception leaves the loop, in the live phase and in the backfill, and the
  records behind it are not processed.
\<close>

theorem undecodable_payload_aborts:
  assumes "val msg = Not_utf8"
  shows "process_record w st msg = (Some UnicodeDecodeError, st)
       \<and> preload_record w st msg = (Some UnicodeDecodeError, st)
       \<and> consume_loop st ((w, msg) # rest) = (Some UnicodeDecodeError, st)
       \<and> preload_msgs st ((w, msg) # rest) = (Some UnicodeDecodeError, st)"
  using assms by (simp add: process_record_def preload_record_def)

theorem undecodable_payload_aborts_witness:
  "process_record example_world init_state not_utf8_msg = (Some UnicodeDecodeError, init_state)
   \<and> preload_record example_world init_state not_utf8_msg = (Some UnicodeDecodeError, init_state)
   \<and> consume_loop init_state
        [(example_world, not_utf8_msg),
         (example_world, json_msg (example_record (PInt 42) (PStr mention_text)) 86400000)]
       = (Some UnicodeDecodeError, init_state)
   \<and> preload_msgs init_state
        [(example_world, not_utf8_msg),
         (example_world, json_msg (example_record (PInt 42) (PStr mention_text)) 86400000)]
       = (Some UnicodeDecodeError, init_state)"
proof -
  have v: "val not_utf8_msg = Not_utf8"
    by (simp add: not_utf8_msg_def)
  show ?thesis
    by (rule undecodable_payload_aborts [OF v])
qed

end
